theory Spec2Isabelle
  imports Main "HOL-Library.AList"
begin

section \<open>Constants\<close>

definition PUBLIC_API :: string where
  "PUBLIC_API = ''https://public.api.bsky.app/xrpc''"

definition AUTH_API :: string where
  "AUTH_API = ''https://bsky.social/xrpc''"

definition PAGE_LIMIT :: int where
  "PAGE_LIMIT = 100"

section \<open>Data classes\<close>

text \<open>
  The three dataclasses of the source. Two records of one theory cannot share field
  names, so the fields of \<open>Profile\<close> carry the prefix \<open>p_\<close>; the fields of
  \<open>GraphEntry\<close> and \<open>SocialGraph\<close> keep the names of the source.
\<close>

record Profile =
  p_did :: string
  p_handle :: string
  p_display_name :: string
  p_description :: string
  followers_count :: int
  follows_count :: int
  posts_count :: int

record GraphEntry =
  did :: string
  handle :: string
  display_name :: string
  description :: string
  indexed_at :: string

record SocialGraph =
  actor :: string
  profile :: "Profile option"
  followers :: "GraphEntry list"
  follows :: "GraphEntry list"
  mutuals :: "GraphEntry list"

section \<open>The service\<close>

text \<open>
  A response is a status code and the decoded JSON object. The object is typed as the
  dataclass annotations have it: members that are strings, members that are integers,
  and members that are arrays of objects with string members (the list under the
  paginated key). A member that is absent is \<open>None\<close> in its map.
\<close>

type_synonym item = "string \<rightharpoonup> string"

record body =
  strs :: "string \<rightharpoonup> string"
  ints :: "string \<rightharpoonup> int"
  lists :: "string \<rightharpoonup> item list"

record response =
  status_code :: nat
  json :: body

datatype error = HTTPError nat | KeyError string

datatype pval = PStr string | PInt int

record request =
  meth :: string
  url :: string
  params :: "(string \<times> pval) list"
  json_arg :: "(string \<times> string) list"
  headers :: "(string \<times> string) list"

text \<open>
  The remote service is the sequence of responses it gives: the request number \<open>n\<close> of a
  run (counted from 0) is answered by \<open>srv n\<close>. The requests issued so far are kept in a
  log, which every operation takes and returns extended. The sequence is infinite, so
  that a service that never stops handing out cursors can be written down.
\<close>

type_synonym service = "nat \<Rightarrow> response"

record client =
  access_token :: "string option"
  c_did :: "string option"
  authenticated :: bool
  session_headers :: "(string \<times> string) list"

definition session_post ::
  "service \<Rightarrow> request list \<Rightarrow> client \<Rightarrow> string \<Rightarrow> (string \<times> string) list
    \<Rightarrow> request list \<times> response" where
  "session_post srv log c u js =
     (log @ [\<lparr>meth = ''POST'', url = u, params = [], json_arg = js,
              headers = session_headers c\<rparr>],
      srv (length log))"

definition session_get ::
  "service \<Rightarrow> request list \<Rightarrow> client \<Rightarrow> string \<Rightarrow> (string \<times> pval) list
    \<Rightarrow> request list \<times> response" where
  "session_get srv log c u ps =
     (log @ [\<lparr>meth = ''GET'', url = u, params = ps, json_arg = [],
              headers = session_headers c\<rparr>],
      srv (length log))"

text \<open>
  \<open>Response.raise_for_status\<close> of the requests library raises \<open>HTTPError\<close> for the
  client errors (400 to 499) and the server errors (500 to 599), and for no other status.
\<close>

definition raise_for_status :: "response \<Rightarrow> error option" where
  "raise_for_status resp =
     (if 400 \<le> status_code resp \<and> status_code resp < 600
      then Some (HTTPError (status_code resp)) else None)"

text \<open>Truth value of an optional string: \<open>None\<close> and the empty string are false.\<close>

definition truthy :: "string option \<Rightarrow> bool" where
  "truthy s = (case s of None \<Rightarrow> False | Some x \<Rightarrow> x \<noteq> [])"

section \<open>API client\<close>

definition login ::
  "service \<Rightarrow> request list \<Rightarrow> client \<Rightarrow> string \<Rightarrow> string
    \<Rightarrow> request list \<times> (error + client)" where
  "login srv log c hdl password =
     (let (log1, resp) =
            session_post srv log c (AUTH_API @ ''/com.atproto.server.createSession'')
              [(''identifier'', hdl), (''password'', password)]
      in case raise_for_status resp of
           Some e \<Rightarrow> (log1, Inl e)
         | None \<Rightarrow>
             (let data = json resp in
              case strs data ''accessJwt'' of
                None \<Rightarrow> (log1, Inl (KeyError ''accessJwt''))
              | Some tok \<Rightarrow>
                  (case strs data ''did'' of
                     None \<Rightarrow> (log1, Inl (KeyError ''did''))
                   | Some d \<Rightarrow>
                       (case strs data ''handle'' of
                          None \<Rightarrow> (log1, Inl (KeyError ''handle''))
                        | Some h \<Rightarrow>
                            (log1,
                             Inr (c\<lparr>access_token := Some tok, c_did := Some d,
                                    authenticated := True,
                                    session_headers :=
                                      AList.update ''Authorization'' (''Bearer '' @ tok)
                                        (session_headers c)\<rparr>))))))"

definition BlueskyClient ::
  "service \<Rightarrow> request list \<Rightarrow> string option \<Rightarrow> string option
    \<Rightarrow> request list \<times> (error + client)" where
  "BlueskyClient srv log hdl password =
     (let c = \<lparr>access_token = None, c_did = None, authenticated = False,
                session_headers = []\<rparr>
      in if truthy hdl \<and> truthy password
         then login srv log c (the hdl) (the password)
         else (log, Inr c))"

definition base_url :: "client \<Rightarrow> string" where
  "base_url c = (if authenticated c then AUTH_API else PUBLIC_API)"

definition get_profile ::
  "service \<Rightarrow> request list \<Rightarrow> client \<Rightarrow> string
    \<Rightarrow> request list \<times> (error + Profile)" where
  "get_profile srv log c act =
     (let (log1, resp) =
            session_get srv log c (PUBLIC_API @ ''/app.bsky.actor.getProfile'')
              [(''actor'', PStr act)]
      in case raise_for_status resp of
           Some e \<Rightarrow> (log1, Inl e)
         | None \<Rightarrow>
             (let d = json resp in
              case strs d ''did'' of
                None \<Rightarrow> (log1, Inl (KeyError ''did''))
              | Some dd \<Rightarrow>
                  (case strs d ''handle'' of
                     None \<Rightarrow> (log1, Inl (KeyError ''handle''))
                   | Some h \<Rightarrow>
                       (log1,
                        Inr \<lparr>p_did = dd, p_handle = h,
                             p_display_name = (case strs d ''displayName'' of
                                                 None \<Rightarrow> '''' | Some v \<Rightarrow> v),
                             p_description = (case strs d ''description'' of
                                                None \<Rightarrow> '''' | Some v \<Rightarrow> v),
                             followers_count = (case ints d ''followersCount'' of
                                                  None \<Rightarrow> 0 | Some n \<Rightarrow> n),
                             follows_count = (case ints d ''followsCount'' of
                                                None \<Rightarrow> 0 | Some n \<Rightarrow> n),
                             posts_count = (case ints d ''postsCount'' of
                                              None \<Rightarrow> 0 | Some n \<Rightarrow> n)\<rparr>))))"

subsection \<open>Paginator\<close>

text \<open>The \<open>GraphEntry\<close> built from one item of a page; a missing key raises.\<close>

definition mk_entry :: "item \<Rightarrow> error + GraphEntry" where
  "mk_entry it =
     (case it ''did'' of
        None \<Rightarrow> Inl (KeyError ''did'')
      | Some d \<Rightarrow>
          (case it ''handle'' of
             None \<Rightarrow> Inl (KeyError ''handle'')
           | Some h \<Rightarrow>
               Inr \<lparr>did = d, handle = h,
                    display_name = (case it ''displayName'' of None \<Rightarrow> '''' | Some v \<Rightarrow> v),
                    description = (case it ''description'' of None \<Rightarrow> '''' | Some v \<Rightarrow> v),
                    indexed_at = (case it ''indexedAt'' of None \<Rightarrow> '''' | Some v \<Rightarrow> v)\<rparr>))"

text \<open>The \<open>for\<close> loop over the items of a page, stopping at the first item that raises.\<close>

fun mk_entries :: "item list \<Rightarrow> error + GraphEntry list" where
  "mk_entries [] = Inr []"
| "mk_entries (it # its) =
     (case mk_entry it of
        Inl e \<Rightarrow> Inl e
      | Inr en \<Rightarrow> (case mk_entries its of Inl e \<Rightarrow> Inl e | Inr ens \<Rightarrow> Inr (en # ens)))"

text \<open>\<open>data.get(key, [])\<close>: the items of a page, none when the key is absent.\<close>

definition page_items :: "string \<Rightarrow> response \<Rightarrow> item list" where
  "page_items key resp = (case lists (json resp) key of None \<Rightarrow> [] | Some l \<Rightarrow> l)"

text \<open>The parameters of one paginated request: the cursor is sent only when it is true.\<close>

definition page_params :: "string \<Rightarrow> string option \<Rightarrow> (string \<times> pval) list" where
  "page_params act cursor =
     [(''actor'', PStr act), (''limit'', PInt PAGE_LIMIT)]
       @ (if truthy cursor then [(''cursor'', PStr (the cursor))] else [])"

text \<open>
  The \<open>while True\<close> loop of \<open>_paginate\<close>. It may run forever, which is the value
  \<open>None\<close>; a run that ends gives the log and either the exception raised or the
  accumulated entries. The delay between two pages changes no value and is left out.
\<close>

partial_function (option) paginate_loop ::
  "service \<Rightarrow> client \<Rightarrow> string \<Rightarrow> string \<Rightarrow> string \<Rightarrow> request list
    \<Rightarrow> GraphEntry list \<Rightarrow> string option \<Rightarrow> nat
    \<Rightarrow> (request list \<times> (error + GraphEntry list)) option" where
  "paginate_loop srv c endpoint act key log entries cursor page =
     (let (log1, resp) =
            session_get srv log c (base_url c @ ''/'' @ endpoint) (page_params act cursor)
      in case raise_for_status resp of
           Some e \<Rightarrow> Some (log1, Inl e)
         | None \<Rightarrow>
             (case mk_entries (page_items key resp) of
                Inl e \<Rightarrow> Some (log1, Inl e)
              | Inr es \<Rightarrow>
                  (let entries1 = entries @ es;
                       cursor1 = strs (json resp) ''cursor'';
                       page1 = page + 1
                   in if \<not> truthy cursor1 then Some (log1, Inr entries1)
                      else paginate_loop srv c endpoint act key log1 entries1 cursor1 page1)))"

definition paginate ::
  "service \<Rightarrow> request list \<Rightarrow> client \<Rightarrow> string \<Rightarrow> string \<Rightarrow> string
    \<Rightarrow> (request list \<times> (error + GraphEntry list)) option" where
  "paginate srv log c endpoint act key = paginate_loop srv c endpoint act key log [] None 0"

subsection \<open>Social graph\<close>

definition get_followers ::
  "service \<Rightarrow> request list \<Rightarrow> client \<Rightarrow> string
    \<Rightarrow> (request list \<times> (error + GraphEntry list)) option" where
  "get_followers srv log c act =
     paginate srv log c ''app.bsky.graph.getFollowers'' act ''followers''"

definition get_follows ::
  "service \<Rightarrow> request list \<Rightarrow> client \<Rightarrow> string
    \<Rightarrow> (request list \<times> (error + GraphEntry list)) option" where
  "get_follows srv log c act =
     paginate srv log c ''app.bsky.graph.getFollows'' act ''follows''"

definition get_social_graph ::
  "service \<Rightarrow> request list \<Rightarrow> client \<Rightarrow> string
    \<Rightarrow> (request list \<times> (error + SocialGraph)) option" where
  "get_social_graph srv log c act =
     (case get_profile srv log c act of
        (log1, Inl e) \<Rightarrow> Some (log1, Inl e)
      | (log1, Inr prof) \<Rightarrow>
          (case get_followers srv log1 c act of
             None \<Rightarrow> None
           | Some (log2, Inl e) \<Rightarrow> Some (log2, Inl e)
           | Some (log2, Inr frs) \<Rightarrow>
               (case get_follows srv log2 c act of
                  None \<Rightarrow> None
                | Some (log3, Inl e) \<Rightarrow> Some (log3, Inl e)
                | Some (log3, Inr fws) \<Rightarrow>
                    (let follower_dids = set (map did frs)
                     in Some (log3,
                          Inr \<lparr>actor = act, profile = Some prof, followers = frs,
                               follows = fws,
                               mutuals = filter (\<lambda>f. did f \<in> follower_dids) fws\<rparr>)))))"

section \<open>Export helpers\<close>

text \<open>
  The files written, by path. \<open>json.dumps(data, indent=2, ensure_ascii=False)\<close> and the
  row formatting of the \<open>csv\<close> module belong to the standard library: they are the
  parameters \<open>dumps\<close> and \<open>fmt\<close> of the exporters, which are modelled down to the value
  handed to them.
\<close>

type_synonym files = "string \<rightharpoonup> string"

datatype jsonv =
  JNull | JInt int | JStr string | JList "jsonv list" | JObj "(string \<times> jsonv) list"

fun jget :: "jsonv \<Rightarrow> string \<Rightarrow> jsonv option" where
  "jget (JObj kvs) k = map_of kvs k"
| "jget _ k = None"

text \<open>The number of elements of the list member \<open>k\<close> of an object, as a JSON integer.\<close>

definition jcount :: "jsonv \<Rightarrow> string \<Rightarrow> jsonv option" where
  "jcount d k =
     (case jget d k of Some (JList xs) \<Rightarrow> Some (JInt (int (length xs))) | _ \<Rightarrow> None)"

definition asdict_Profile :: "Profile \<Rightarrow> jsonv" where
  "asdict_Profile p =
     JObj [(''did'', JStr (p_did p)), (''handle'', JStr (p_handle p)),
           (''display_name'', JStr (p_display_name p)),
           (''description'', JStr (p_description p)),
           (''followers_count'', JInt (followers_count p)),
           (''follows_count'', JInt (follows_count p)),
           (''posts_count'', JInt (posts_count p))]"

definition asdict_GraphEntry :: "GraphEntry \<Rightarrow> jsonv" where
  "asdict_GraphEntry e =
     JObj [(''did'', JStr (did e)), (''handle'', JStr (handle e)),
           (''display_name'', JStr (display_name e)),
           (''description'', JStr (description e)),
           (''indexed_at'', JStr (indexed_at e))]"

text \<open>The dictionary \<open>data\<close> of \<open>export_json\<close>.\<close>

definition export_json_data :: "SocialGraph \<Rightarrow> jsonv" where
  "export_json_data graph =
     JObj [(''actor'', JStr (actor graph)),
           (''profile'', (case profile graph of
                            Some p \<Rightarrow> asdict_Profile p | None \<Rightarrow> JNull)),
           (''followers'', JList (map asdict_GraphEntry (followers graph))),
           (''follows'', JList (map asdict_GraphEntry (follows graph))),
           (''mutuals'', JList (map asdict_GraphEntry (mutuals graph))),
           (''stats'',
            JObj [(''followers_count'', JInt (int (length (followers graph)))),
                  (''follows_count'', JInt (int (length (follows graph)))),
                  (''mutuals_count'', JInt (int (length (mutuals graph))))])]"

definition export_json ::
  "(jsonv \<Rightarrow> string) \<Rightarrow> SocialGraph \<Rightarrow> string \<Rightarrow> files \<Rightarrow> files" where
  "export_json dumps graph path fs = fs(path \<mapsto> dumps (export_json_data graph))"

definition fieldnames :: "string list" where
  "fieldnames =
     [''relationship'', ''did'', ''handle'', ''display_name'', ''description'',
      ''indexed_at'']"

text \<open>
  \<open>DictWriter.writerow\<close>: the cells of a row dictionary in the order of the field
  names, a missing key giving the empty cell.
\<close>

definition writerow :: "(string \<times> string) list \<Rightarrow> string list" where
  "writerow rowdict =
     map (\<lambda>k. case map_of rowdict k of None \<Rightarrow> '''' | Some v \<Rightarrow> v) fieldnames"

definition entry_row :: "string \<Rightarrow> GraphEntry \<Rightarrow> string list" where
  "entry_row rel entry =
     writerow [(''relationship'', rel), (''did'', did entry), (''handle'', handle entry),
               (''display_name'', display_name entry),
               (''description'', description entry),
               (''indexed_at'', indexed_at entry)]"

text \<open>The data rows \<open>export_csv\<close> writes after the header, in the order written.\<close>

definition export_csv_rows :: "SocialGraph \<Rightarrow> string list list" where
  "export_csv_rows graph =
     (let mutual_dids = set (map did (mutuals graph));
          follower_rows =
            map (\<lambda>entry. entry_row (if did entry \<in> mutual_dids then ''mutual''
                                      else ''follower'') entry)
              (followers graph);
          follow_dids = set (map did (followers graph));
          follow_rows =
            map (entry_row ''following'')
              (filter (\<lambda>entry. did entry \<notin> follow_dids) (follows graph))
      in follower_rows @ follow_rows)"

definition export_csv ::
  "(string list \<Rightarrow> string) \<Rightarrow> SocialGraph \<Rightarrow> string \<Rightarrow> files \<Rightarrow> files" where
  "export_csv fmt graph path fs =
     fs(path \<mapsto> concat (map fmt (fieldnames # export_csv_rows graph)))"

subsection \<open>Summary\<close>

text \<open>
  The two lists \<open>print_summary\<close> derives before printing them: the fans and the accounts
  that do not follow back. The text printed is not part of the model.
\<close>

definition print_summary_fans :: "SocialGraph \<Rightarrow> GraphEntry list" where
  "print_summary_fans graph =
     (let follows_dids = set (map did (follows graph))
      in filter (\<lambda>f. did f \<notin> follows_dids) (followers graph))"

definition print_summary_not_followed_back :: "SocialGraph \<Rightarrow> GraphEntry list" where
  "print_summary_not_followed_back graph =
     (let follower_dids = set (map did (followers graph))
      in filter (\<lambda>f. did f \<notin> follower_dids) (follows graph))"

section \<open>Command line\<close>

record args =
  arg_actor :: string
  arg_handle :: "string option"
  arg_password :: "string option"
  arg_export :: "string option"
  arg_output :: "string option"

text \<open>
  How a run ends: \<open>main\<close> returns, \<open>sys.exit\<close> is called, or an exception reaches the
  top level, where the interpreter prints it and exits with status 1.
\<close>

datatype ending = Returned | SysExit nat | Uncaught error

fun exit_code :: "ending \<Rightarrow> nat" where
  "exit_code Returned = 0"
| "exit_code (SysExit n) = n"
| "exit_code (Uncaught e) = 1"

record run =
  ended :: ending
  requests :: "request list"
  files :: files

definition main ::
  "(jsonv \<Rightarrow> string) \<Rightarrow> (string list \<Rightarrow> string) \<Rightarrow> service \<Rightarrow> files \<Rightarrow> args
    \<Rightarrow> run option" where
  "main dumps fmt srv fs a =
     (case BlueskyClient srv [] (arg_handle a) (arg_password a) of
        (log0, Inl e) \<Rightarrow> Some \<lparr>ended = Uncaught e, requests = log0, files = fs\<rparr>
      | (log0, Inr cl) \<Rightarrow>
          (case get_social_graph srv log0 cl (arg_actor a) of
             None \<Rightarrow> None
           | Some (log1, Inl (HTTPError st)) \<Rightarrow>
               Some \<lparr>ended = SysExit 1, requests = log1, files = fs\<rparr>
           | Some (log1, Inl (KeyError k)) \<Rightarrow>
               Some \<lparr>ended = Uncaught (KeyError k), requests = log1, files = fs\<rparr>
           | Some (log1, Inr graph) \<Rightarrow>
               Some \<lparr>ended = Returned, requests = log1,
                     files =
                       (if truthy (arg_export a) then
                          (let safe_actor =
                                 map (\<lambda>ch. if ch = CHR ''.'' then CHR ''_'' else ch)
                                   (arg_actor a);
                               output_path =
                                 (if truthy (arg_output a) then the (arg_output a)
                                  else safe_actor @ ''_graph.'' @ the (arg_export a))
                           in if the (arg_export a) = ''json''
                              then export_json dumps graph output_path fs
                              else if the (arg_export a) = ''csv''
                              then export_csv fmt graph output_path fs
                              else fs)
                        else fs)\<rparr>))"

section \<open>Vocabulary of the statements\<close>

text \<open>
  What one response does to the loop of the paginator. It ends the loop when its status
  raises, when one of its items lacks a required key, or when its cursor is false;
  otherwise the loop goes on with the entries of the page appended.
\<close>

definition stops :: "string \<Rightarrow> response \<Rightarrow> bool" where
  "stops key resp =
     (raise_for_status resp \<noteq> None \<or> isl (mk_entries (page_items key resp))
      \<or> \<not> truthy (strs (json resp) ''cursor''))"

definition page_entries :: "string \<Rightarrow> response \<Rightarrow> GraphEntry list" where
  "page_entries key resp =
     (case mk_entries (page_items key resp) of Inl e \<Rightarrow> [] | Inr es \<Rightarrow> es)"

definition page_outcome ::
  "string \<Rightarrow> GraphEntry list \<Rightarrow> response \<Rightarrow> error + GraphEntry list" where
  "page_outcome key entries resp =
     (case raise_for_status resp of
        Some e \<Rightarrow> Inl e
      | None \<Rightarrow>
          (case mk_entries (page_items key resp) of
             Inl e \<Rightarrow> Inl e
           | Inr es \<Rightarrow> Inr (entries @ es)))"

text \<open>The request one turn of the loop sends.\<close>

definition page_request :: "client \<Rightarrow> string \<Rightarrow> string \<Rightarrow> string option \<Rightarrow> request" where
  "page_request c endpoint act cursor =
     \<lparr>meth = ''GET'', url = base_url c @ ''/'' @ endpoint,
      params = page_params act cursor, json_arg = [], headers = session_headers c\<rparr>"

text \<open>The request of the profile lookup and the request of the login.\<close>

definition profile_request :: "client \<Rightarrow> string \<Rightarrow> request" where
  "profile_request c act =
     \<lparr>meth = ''GET'', url = PUBLIC_API @ ''/app.bsky.actor.getProfile'',
      params = [(''actor'', PStr act)], json_arg = [], headers = session_headers c\<rparr>"

definition login_request :: "string \<Rightarrow> string \<Rightarrow> request" where
  "login_request hdl password =
     \<lparr>meth = ''POST'', url = AUTH_API @ ''/com.atproto.server.createSession'',
      params = [], json_arg = [(''identifier'', hdl), (''password'', password)],
      headers = []\<rparr>"

text \<open>A response with the cursor member taken out of its object.\<close>

definition without_cursor :: "response \<Rightarrow> response" where
  "without_cursor resp =
     resp\<lparr>json := (json resp)\<lparr>strs := (strs (json resp))(''cursor'' := None)\<rparr>\<rparr>"

text \<open>The entry an item with both required keys gives.\<close>

definition entry_of :: "item \<Rightarrow> GraphEntry" where
  "entry_of it =
     \<lparr>did = the (it ''did''), handle = the (it ''handle''),
      display_name = (case it ''displayName'' of None \<Rightarrow> '''' | Some v \<Rightarrow> v),
      description = (case it ''description'' of None \<Rightarrow> '''' | Some v \<Rightarrow> v),
      indexed_at = (case it ''indexedAt'' of None \<Rightarrow> '''' | Some v \<Rightarrow> v)\<rparr>"

text \<open>The profile an object with both required keys gives.\<close>

definition profile_of :: "body \<Rightarrow> Profile" where
  "profile_of d =
     \<lparr>p_did = the (strs d ''did''), p_handle = the (strs d ''handle''),
      p_display_name = (case strs d ''displayName'' of None \<Rightarrow> '''' | Some v \<Rightarrow> v),
      p_description = (case strs d ''description'' of None \<Rightarrow> '''' | Some v \<Rightarrow> v),
      followers_count = (case ints d ''followersCount'' of None \<Rightarrow> 0 | Some n \<Rightarrow> n),
      follows_count = (case ints d ''followsCount'' of None \<Rightarrow> 0 | Some n \<Rightarrow> n),
      posts_count = (case ints d ''postsCount'' of None \<Rightarrow> 0 | Some n \<Rightarrow> n)\<rparr>"

section \<open>Example inputs\<close>

definition anonymous :: client where
  "anonymous =
     \<lparr>access_token = None, c_did = None, authenticated = False, session_headers = []\<rparr>"

definition ok :: "body \<Rightarrow> response" where
  "ok b = \<lparr>status_code = 200, json = b\<rparr>"

definition person :: "string \<Rightarrow> item" where
  "person d = [''did'' \<mapsto> d, ''handle'' \<mapsto> d @ ''.bsky.social'']"

definition entry :: "string \<Rightarrow> GraphEntry" where
  "entry d =
     \<lparr>did = d, handle = d @ ''.bsky.social'', display_name = '''', description = '''',
      indexed_at = ''''\<rparr>"

text \<open>
  A service for an actor with the followers a, b, c and the follows b, d: the profile,
  then one page of followers, then one page of follows, none with a cursor.
\<close>

definition demo_service :: service where
  "demo_service n =
     (if n = 0 then
        ok \<lparr>strs = [''did'' \<mapsto> ''me'', ''handle'' \<mapsto> ''me.bsky.social''],
            ints = Map.empty, lists = Map.empty\<rparr>
      else if n = 1 then
        ok \<lparr>strs = Map.empty, ints = Map.empty,
            lists = [''followers'' \<mapsto> [person ''a'', person ''b'', person ''c'']]\<rparr>
      else
        ok \<lparr>strs = Map.empty, ints = Map.empty,
            lists = [''follows'' \<mapsto> [person ''b'', person ''d'']]\<rparr>)"

definition demo_profile :: Profile where
  "demo_profile =
     \<lparr>p_did = ''me'', p_handle = ''me.bsky.social'', p_display_name = '''',
      p_description = '''', followers_count = 0, follows_count = 0, posts_count = 0\<rparr>"

definition demo_graph :: SocialGraph where
  "demo_graph =
     \<lparr>actor = ''me'', profile = Some demo_profile,
      followers = [entry ''a'', entry ''b'', entry ''c''],
      follows = [entry ''b'', entry ''d''], mutuals = [entry ''b'']\<rparr>"

text \<open>Two pages of followers: two items and a cursor, then one item and no cursor.\<close>

definition two_page_service :: service where
  "two_page_service n =
     (if n = 0 then
        ok \<lparr>strs = [''cursor'' \<mapsto> ''c1''], ints = Map.empty,
            lists = [''followers'' \<mapsto> [person ''a'', person ''b'']]\<rparr>
      else
        ok \<lparr>strs = Map.empty, ints = Map.empty,
            lists = [''followers'' \<mapsto> [person ''c'']]\<rparr>)"

text \<open>Every response carries a cursor member, and its value is the empty string.\<close>

definition empty_cursor_service :: service where
  "empty_cursor_service n =
     ok \<lparr>strs = [''cursor'' \<mapsto> ''''], ints = Map.empty,
         lists = [''followers'' \<mapsto> [person ''a'']]\<rparr>"

text \<open>
  The session is created with status 300 and a complete body; the service then answers
  as \<open>demo_service\<close> does.
\<close>

definition redirect_login_service :: service where
  "redirect_login_service n =
     (if n = 0 then
        \<lparr>status_code = 300,
         json = \<lparr>strs = [''accessJwt'' \<mapsto> ''t'', ''did'' \<mapsto> ''me'',
                          ''handle'' \<mapsto> ''me.bsky.social''],
                 ints = Map.empty, lists = Map.empty\<rparr>\<rparr>
      else demo_service (n - 1))"

definition failed_login_service :: service where
  "failed_login_service n =
     \<lparr>status_code = 401, json = \<lparr>strs = Map.empty, ints = Map.empty, lists = Map.empty\<rparr>\<rparr>"

definition demo_args :: args where
  "demo_args =
     \<lparr>arg_actor = ''me'', arg_handle = Some ''me.bsky.social'', arg_password = Some ''pw'',
      arg_export = None, arg_output = None\<rparr>"

text \<open>A successful login, after which the service answers as \<open>demo_service\<close> does.\<close>

definition login_service :: service where
  "login_service n =
     (if n = 0 then
        ok \<lparr>strs = [''accessJwt'' \<mapsto> ''t'', ''did'' \<mapsto> ''me'',
                     ''handle'' \<mapsto> ''me.bsky.social''],
            ints = Map.empty, lists = Map.empty\<rparr>
      else demo_service (n - 1))"

definition signed_in :: client where
  "signed_in =
     \<lparr>access_token = Some ''t'', c_did = Some ''me'', authenticated = True,
      session_headers = [(''Authorization'', ''Bearer t'')]\<rparr>"

text \<open>A page whose second item has no identifier.\<close>

definition broken_service :: service where
  "broken_service n =
     ok \<lparr>strs = Map.empty, ints = Map.empty,
         lists = [''followers'' \<mapsto> [person ''a'', [''handle'' \<mapsto> ''x.bsky.social'']]]\<rparr>"

text \<open>
  A service that returns one follower b and lists b twice among the follows: the profile,
  then one page of followers, then one page of follows.
\<close>

definition repeated_follow_service :: service where
  "repeated_follow_service n =
     (if n = 0 then
        ok \<lparr>strs = [''did'' \<mapsto> ''me'', ''handle'' \<mapsto> ''me.bsky.social''],
            ints = Map.empty, lists = Map.empty\<rparr>
      else if n = 1 then
        ok \<lparr>strs = Map.empty, ints = Map.empty,
            lists = [''followers'' \<mapsto> [person ''b'']]\<rparr>
      else
        ok \<lparr>strs = Map.empty, ints = Map.empty,
            lists = [''follows'' \<mapsto> [person ''b'', person ''b'']]\<rparr>)"

definition repeated_follow_graph :: SocialGraph where
  "repeated_follow_graph =
     \<lparr>actor = ''me'', profile = Some demo_profile, followers = [entry ''b''],
      follows = [entry ''b'', entry ''b''], mutuals = [entry ''b'', entry ''b'']\<rparr>"

section \<open>The loop of the paginator\<close>

lemma paginate_loop_continue:
  assumes "\<not> stops key (srv (length log))"
  shows "paginate_loop srv c endpoint act key log entries cursor page =
         paginate_loop srv c endpoint act key (log @ [page_request c endpoint act cursor])
           (entries @ page_entries key (srv (length log)))
           (strs (json (srv (length log))) ''cursor'') (page + 1)"
  using assms
  by (subst paginate_loop.simps)
     (auto simp: stops_def session_get_def page_request_def page_entries_def
           split: option.splits sum.splits)

lemma paginate_loop_stop:
  assumes "stops key (srv (length log))"
  shows "paginate_loop srv c endpoint act key log entries cursor page =
         Some (log @ [page_request c endpoint act cursor],
               page_outcome key entries (srv (length log)))"
  using assms
  by (subst paginate_loop.simps)
     (auto simp: stops_def session_get_def page_request_def page_outcome_def
           split: option.splits sum.splits)

lemma paginate_loop_terminates:
  "stops key (srv (length log + k)) \<Longrightarrow>
   \<exists>y. paginate_loop srv c endpoint act key log entries cursor page = Some y"
proof (induction k arbitrary: log entries cursor page)
  case 0
  then show ?case by (simp add: paginate_loop_stop)
next
  case (Suc k)
  show ?case
  proof (cases "stops key (srv (length log))")
    case True
    then show ?thesis by (simp add: paginate_loop_stop)
  next
    case False
    have eq: "paginate_loop srv c endpoint act key log entries cursor page =
         paginate_loop srv c endpoint act key (log @ [page_request c endpoint act cursor])
           (entries @ page_entries key (srv (length log)))
           (strs (json (srv (length log))) ''cursor'') (page + 1)"
      using False by (rule paginate_loop_continue)
    from Suc.prems
    have "stops key (srv (length (log @ [page_request c endpoint act cursor]) + k))"
      by simp
    from Suc.IH [OF this] show ?thesis
      unfolding eq by blast
  qed
qed

lemma paginate_loop_stops:
  assumes "paginate_loop srv c endpoint act key log entries cursor page = Some y"
  shows "\<exists>k. stops key (srv (length log + k))"
  using assms
proof (induction rule: paginate_loop.raw_induct [rotated 1, consumes 1])
  case (1 f srv c endpoint act key log entries cursor page y)
  show ?case
  proof (cases "stops key (srv (length log))")
    case True
    then have "stops key (srv (length log + 0))" by simp
    then show ?thesis by blast
  next
    case False
    with 1(2)
    have "f srv c endpoint act key (log @ [page_request c endpoint act cursor])
           (entries @ page_entries key (srv (length log)))
           (strs (json (srv (length log))) ''cursor'') (page + 1) = Some y"
      by (auto simp: stops_def session_get_def page_request_def page_entries_def
               split: option.splits sum.splits)
    from 1(1) [OF this] obtain k where "stops key (srv (length log + Suc k))" by auto
    then show ?thesis by blast
  qed
qed

text \<open>
  The shape of a run that ends: the log grows by requests to the base URL of the client,
  and entries returned are those of the pages read, every one of which was well formed.
\<close>

lemma paginate_loop_result:
  assumes "paginate_loop srv c endpoint act key log entries cursor page = Some (log', r)"
  shows "length log < length log' \<and> take (length log) log' = log \<and>
         (\<forall>q \<in> set (drop (length log) log').
            meth q = ''GET'' \<and> url q = base_url c @ ''/'' @ endpoint) \<and>
         (\<forall>es. r = Inr es \<longrightarrow>
            es = entries @ concat (map (\<lambda>i. page_entries key (srv i))
                                     [length log..<length log']) \<and>
            (\<forall>i \<in> set [length log..<length log'].
               \<not> isl (mk_entries (page_items key (srv i)))))"
  using assms
proof (induction srv c endpoint act key log entries cursor page "(log', r)"
       rule: paginate_loop.raw_induct [rotated 1, consumes 1])
  case (1 f srv c endpoint act key log entries cursor page)
  let ?q = "page_request c endpoint act cursor"
  show ?case
  proof (cases "stops key (srv (length log))")
    case True
    with 1(2) have "log' = log @ [?q]" "r = page_outcome key entries (srv (length log))"
      by (auto simp: stops_def session_get_def page_request_def page_outcome_def
               split: option.splits sum.splits)
    then show ?thesis
      by (auto simp: page_request_def page_outcome_def page_entries_def
               split: option.splits sum.splits)
  next
    case False
    with 1(2) have "f srv c endpoint act key (log @ [?q])
           (entries @ page_entries key (srv (length log)))
           (strs (json (srv (length log))) ''cursor'') (page + 1) = Some (log', r)"
      by (auto simp: stops_def session_get_def page_request_def page_entries_def
               split: option.splits sum.splits)
    from 1(1) [OF this] have ih:
      "length (log @ [?q]) < length log'"
      "take (length (log @ [?q])) log' = log @ [?q]"
      "\<forall>q \<in> set (drop (length (log @ [?q])) log').
         meth q = ''GET'' \<and> url q = base_url c @ ''/'' @ endpoint"
      "\<forall>es. r = Inr es \<longrightarrow>
         es = (entries @ page_entries key (srv (length log)))
              @ concat (map (\<lambda>i. page_entries key (srv i))
                          [length (log @ [?q])..<length log']) \<and>
         (\<forall>i \<in> set [length (log @ [?q])..<length log'].
            \<not> isl (mk_entries (page_items key (srv i))))"
      by blast+
    have a: "length log < length log'" using ih(1) by simp
    have b: "take (length log) log' = log"
    proof -
      have "take (length log) (take (Suc (length log)) log') = take (length log) (log @ [?q])"
        using ih(2) by simp
      then show ?thesis by (simp add: min_def)
    qed
    have d: "drop (length log) log' = ?q # drop (Suc (length log)) log'"
    proof -
      have "log' ! length log = (take (Suc (length log)) log') ! length log" by simp
      also have "\<dots> = ?q" using ih(2) by simp
      finally show ?thesis using a by (simp add: Cons_nth_drop_Suc [symmetric])
    qed
    have c: "\<forall>q \<in> set (drop (length log) log').
               meth q = ''GET'' \<and> url q = base_url c @ ''/'' @ endpoint"
      using ih(3) unfolding d by (simp add: page_request_def)
    have e: "[length log..<length log'] = length log # [Suc (length log)..<length log']"
      using a by (simp add: upt_conv_Cons)
    have g: "\<not> isl (mk_entries (page_items key (srv (length log))))"
      using False by (simp add: stops_def)
    have "\<forall>es. r = Inr es \<longrightarrow>
            es = entries @ concat (map (\<lambda>i. page_entries key (srv i))
                                     [length log..<length log']) \<and>
            (\<forall>i \<in> set [length log..<length log'].
               \<not> isl (mk_entries (page_items key (srv i))))"
      using ih(4) g unfolding e by simp
    with a b c show ?thesis by blast
  qed
qed

lemma mk_entries_length: "mk_entries its = Inr es \<Longrightarrow> length es = length its"
  by (induction its arbitrary: es) (auto split: sum.splits)

lemma page_entries_length:
  "\<not> isl (mk_entries (page_items key resp)) \<Longrightarrow>
   length (page_entries key resp) = length (page_items key resp)"
  by (cases "mk_entries (page_items key resp)")
     (auto simp: page_entries_def mk_entries_length)

lemma paginate_loop_length:
  assumes "paginate_loop srv c endpoint act key log entries cursor page = Some (log', Inr es)"
  shows "length es =
         length entries + (\<Sum>i = length log..<length log'. length (page_items key (srv i)))"
proof -
  from paginate_loop_result [OF assms]
  have es: "es = entries @ concat (map (\<lambda>i. page_entries key (srv i))
                                     [length log..<length log'])"
    and good: "\<forall>i \<in> set [length log..<length log'].
                 \<not> isl (mk_entries (page_items key (srv i)))"
    by blast+
  have "length es = length entries
          + sum_list (map (\<lambda>i. length (page_entries key (srv i))) [length log..<length log'])"
    by (subst es) (simp add: length_concat comp_def)
  also have "map (\<lambda>i. length (page_entries key (srv i))) [length log..<length log']
           = map (\<lambda>i. length (page_items key (srv i))) [length log..<length log']"
    using good by (intro map_cong refl) (simp add: page_entries_length)
  also have "sum_list (map (\<lambda>i. length (page_items key (srv i))) [length log..<length log'])
           = (\<Sum>i = length log..<length log'. length (page_items key (srv i)))"
    by (simp add: interv_sum_list_conv_sum_set_nat)
  finally show ?thesis .
qed

text \<open>A run of pages that go on, ended by the first response that stops.\<close>

lemma paginate_loop_run:
  assumes "\<forall>j<k. \<not> stops key (srv (length log + j))"
    and "stops key (srv (length log + k))"
  shows "\<exists>log'. length log' = length log + k + 1 \<and>
           paginate_loop srv c endpoint act key log entries cursor page =
           Some (log', page_outcome key
                   (entries @ concat (map (\<lambda>i. page_entries key (srv i))
                                        [length log..<length log + k]))
                   (srv (length log + k)))"
  using assms
proof (induction k arbitrary: log entries cursor page)
  case 0
  then show ?case by (simp add: paginate_loop_stop)
next
  case (Suc k)
  let ?q = "page_request c endpoint act cursor"
  from Suc.prems(1) have go: "\<not> stops key (srv (length log))"
    by (metis add.right_neutral zero_less_Suc)
  have eq: "paginate_loop srv c endpoint act key log entries cursor page =
         paginate_loop srv c endpoint act key (log @ [?q])
           (entries @ page_entries key (srv (length log)))
           (strs (json (srv (length log))) ''cursor'') (page + 1)"
    using go by (rule paginate_loop_continue)
  have p1: "\<forall>j<k. \<not> stops key (srv (length (log @ [?q]) + j))"
    using Suc.prems(1) by (auto simp: less_Suc_eq_0_disj)
  have p2: "stops key (srv (length (log @ [?q]) + k))"
    using Suc.prems(2) by simp
  have e: "[length log..<length log + Suc k] = length log # [Suc (length log)..<Suc (length log + k)]"
    by (simp add: upt_conv_Cons)
  from Suc.IH [OF p1 p2, of "entries @ page_entries key (srv (length log))"
        "strs (json (srv (length log))) ''cursor''" "page + 1"]
  show ?case unfolding eq e by simp
qed

lemma person_entry: "mk_entry (person d) = Inr (entry d)"
  by (simp add: mk_entry_def person_def entry_def)

section \<open>Pagination: length and termination\<close>

text \<open>
  C2 (as amended). For every sequence of service responses and every log: the loop of
  the paginator ends if and only if some response of the run stops it, which an error
  status, an item without a required key, and an absent or empty cursor all do; when
  the paginator returns entries, their number is the sum of the item counts of the
  pages it read; and it returns, after exactly k + 1 requests, for every sequence of k
  pages that go on followed by a well-formed page without a cursor.
\<close>

theorem paginate_terminates_iff_stops:
  "((\<exists>y. paginate srv log c endpoint act key = Some y)
      \<longleftrightarrow> (\<exists>k. stops key (srv (length log + k))))
   \<and> (\<forall>log' es. paginate srv log c endpoint act key = Some (log', Inr es) \<longrightarrow>
         length es = (\<Sum>i = length log..<length log'. length (page_items key (srv i))))
   \<and> (\<forall>k. (\<forall>j<k. \<not> stops key (srv (length log + j)))
           \<and> raise_for_status (srv (length log + k)) = None
           \<and> \<not> isl (mk_entries (page_items key (srv (length log + k))))
           \<and> strs (json (srv (length log + k))) ''cursor'' = None \<longrightarrow>
         (\<exists>log' es. paginate srv log c endpoint act key = Some (log', Inr es)
            \<and> length log' = length log + k + 1))"
proof (intro conjI allI impI)
  show "(\<exists>y. paginate srv log c endpoint act key = Some y)
          \<longleftrightarrow> (\<exists>k. stops key (srv (length log + k)))"
  proof
    assume "\<exists>y. paginate srv log c endpoint act key = Some y"
    then obtain y where "paginate_loop srv c endpoint act key log [] None 0 = Some y"
      by (auto simp: paginate_def)
    then show "\<exists>k. stops key (srv (length log + k))"
      by (rule paginate_loop_stops)
  next
    assume "\<exists>k. stops key (srv (length log + k))"
    then obtain k where "stops key (srv (length log + k))" ..
    then have "\<exists>y. paginate_loop srv c endpoint act key log [] None 0 = Some y"
      by (rule paginate_loop_terminates)
    then show "\<exists>y. paginate srv log c endpoint act key = Some y"
      by (simp add: paginate_def)
  qed
next
  fix log' es
  assume "paginate srv log c endpoint act key = Some (log', Inr es)"
  then have "paginate_loop srv c endpoint act key log [] None 0 = Some (log', Inr es)"
    by (simp add: paginate_def)
  from paginate_loop_length [OF this]
  show "length es = (\<Sum>i = length log..<length log'. length (page_items key (srv i)))"
    by simp
next
  fix k
  assume h: "(\<forall>j<k. \<not> stops key (srv (length log + j)))
           \<and> raise_for_status (srv (length log + k)) = None
           \<and> \<not> isl (mk_entries (page_items key (srv (length log + k))))
           \<and> strs (json (srv (length log + k))) ''cursor'' = None"
  then have st: "stops key (srv (length log + k))"
    by (simp add: stops_def truthy_def)
  from h obtain es where es: "mk_entries (page_items key (srv (length log + k))) = Inr es"
    by (cases "mk_entries (page_items key (srv (length log + k)))") auto
  from h have go: "\<forall>j<k. \<not> stops key (srv (length log + j))" by blast
  from paginate_loop_run [OF go st, of c endpoint act "[]" None 0] h es
  show "\<exists>log' es. paginate srv log c endpoint act key = Some (log', Inr es)
            \<and> length log' = length log + k + 1"
    by (auto simp: paginate_def page_outcome_def)
qed

lemma two_page_run:
  "paginate two_page_service [] anonymous ''app.bsky.graph.getFollowers'' ''me'' ''followers''
   = Some ([page_request anonymous ''app.bsky.graph.getFollowers'' ''me'' None,
            page_request anonymous ''app.bsky.graph.getFollowers'' ''me'' (Some ''c1'')],
           Inr [entry ''a'', entry ''b'', entry ''c''])"
proof -
  have go: "\<not> stops ''followers'' (two_page_service (length ([] :: request list)))"
    by (simp add: stops_def two_page_service_def ok_def raise_for_status_def page_items_def
          person_entry truthy_def)
  have st: "stops ''followers'' (two_page_service
              (length [page_request anonymous ''app.bsky.graph.getFollowers'' ''me'' None]))"
    by (simp add: stops_def two_page_service_def ok_def truthy_def)
  show ?thesis
    unfolding paginate_def
    by (simp add: paginate_loop_continue [where srv = two_page_service and log = "[]", OF go]
          paginate_loop_stop [where srv = two_page_service, OF st])
       (simp add: page_outcome_def page_entries_def two_page_service_def ok_def
          raise_for_status_def page_items_def person_entry)
qed

theorem paginate_terminates_iff_stops_witness:
  "stops ''followers'' (two_page_service (length ([] :: request list) + 1))
   \<and> (\<exists>y. paginate two_page_service [] anonymous ''app.bsky.graph.getFollowers'' ''me''
             ''followers'' = Some y)
   \<and> paginate two_page_service [] anonymous ''app.bsky.graph.getFollowers'' ''me''
       ''followers''
     = Some ([page_request anonymous ''app.bsky.graph.getFollowers'' ''me'' None,
              page_request anonymous ''app.bsky.graph.getFollowers'' ''me'' (Some ''c1'')],
             Inr [entry ''a'', entry ''b'', entry ''c''])
   \<and> length [entry ''a'', entry ''b'', entry ''c'']
     = (\<Sum>i = 0..<2. length (page_items ''followers'' (two_page_service i)))
   \<and> strs (json (two_page_service 1)) ''cursor'' = None"
proof -
  let ?p = "paginate two_page_service [] anonymous ''app.bsky.graph.getFollowers'' ''me''
              ''followers''"
  note t = paginate_terminates_iff_stops [of two_page_service "[]" anonymous
             "''app.bsky.graph.getFollowers''" "''me''" "''followers''"]
  have st: "stops ''followers'' (two_page_service (length ([] :: request list) + 1))"
    by (simp add: stops_def two_page_service_def ok_def truthy_def)
  then have "\<exists>k. stops ''followers'' (two_page_service (length ([] :: request list) + k))"
    by blast
  with t have ex: "\<exists>y. ?p = Some y" by blast
  from t two_page_run
  have len: "length [entry ''a'', entry ''b'', entry ''c'']
     = (\<Sum>i = length ([] :: request list)..<
           length [page_request anonymous ''app.bsky.graph.getFollowers'' ''me'' None,
              page_request anonymous ''app.bsky.graph.getFollowers'' ''me'' (Some ''c1'')].
          length (page_items ''followers'' (two_page_service i)))"
    by blast
  have cur: "strs (json (two_page_service 1)) ''cursor'' = None"
    by (simp add: two_page_service_def ok_def)
  from st ex two_page_run len cur show ?thesis by (simp add: numeral_2_eq_2)
qed

theorem paginate_empty_cursor_counterexample:
  "paginate empty_cursor_service [] anonymous ''app.bsky.graph.getFollowers'' ''me''
     ''followers''
   = Some ([page_request anonymous ''app.bsky.graph.getFollowers'' ''me'' None],
           Inr [entry ''a''])
   \<and> (\<forall>n. strs (json (empty_cursor_service n)) ''cursor'' = Some '''')"
proof -
  have st: "stops ''followers'' (empty_cursor_service (length ([] :: request list)))"
    by (simp add: stops_def empty_cursor_service_def ok_def truthy_def)
  show ?thesis
    unfolding paginate_def
    by (simp add: paginate_loop_stop [where srv = empty_cursor_service and log = "[]", OF st])
       (simp add: page_outcome_def empty_cursor_service_def ok_def
          raise_for_status_def page_items_def person_entry)
qed

section \<open>The graph builder\<close>

lemma get_social_graph_built:
  assumes "get_social_graph srv log c act = Some (log', Inr g)"
  shows "mutuals g = filter (\<lambda>f. did f \<in> set (map did (followers g))) (follows g)"
  using assms
  by (auto simp: get_social_graph_def Let_def
           split: prod.splits sum.splits option.splits)

lemma demo_run:
  "get_social_graph demo_service [] anonymous ''me''
   = Some ([profile_request anonymous ''me'',
            page_request anonymous ''app.bsky.graph.getFollowers'' ''me'' None,
            page_request anonymous ''app.bsky.graph.getFollows'' ''me'' None],
           Inr demo_graph)"
proof -
  have prof: "get_profile demo_service [] anonymous ''me''
              = ([profile_request anonymous ''me''], Inr demo_profile)"
    by (simp add: get_profile_def session_get_def profile_request_def demo_service_def
          ok_def raise_for_status_def demo_profile_def)
  have st1: "stops ''followers'' (demo_service (length [profile_request anonymous ''me'']))"
    by (simp add: stops_def demo_service_def ok_def truthy_def)
  have frs: "get_followers demo_service [profile_request anonymous ''me''] anonymous ''me''
             = Some ([profile_request anonymous ''me'',
                      page_request anonymous ''app.bsky.graph.getFollowers'' ''me'' None],
                     Inr [entry ''a'', entry ''b'', entry ''c''])"
    unfolding get_followers_def paginate_def
    by (simp add: paginate_loop_stop [where srv = demo_service, OF st1])
       (simp add: page_outcome_def demo_service_def ok_def raise_for_status_def
          page_items_def person_entry)
  have st2: "stops ''follows''
               (demo_service
                  (length [profile_request anonymous ''me'',
                           page_request anonymous ''app.bsky.graph.getFollowers'' ''me''
                             None]))"
    by (simp add: stops_def demo_service_def ok_def truthy_def)
  have fws: "get_follows demo_service
               [profile_request anonymous ''me'',
                page_request anonymous ''app.bsky.graph.getFollowers'' ''me'' None]
               anonymous ''me''
             = Some ([profile_request anonymous ''me'',
                      page_request anonymous ''app.bsky.graph.getFollowers'' ''me'' None,
                      page_request anonymous ''app.bsky.graph.getFollows'' ''me'' None],
                     Inr [entry ''b'', entry ''d''])"
    unfolding get_follows_def paginate_def
    by (simp add: paginate_loop_stop [where srv = demo_service, OF st2])
       (simp add: page_outcome_def demo_service_def ok_def raise_for_status_def
          page_items_def person_entry)
  show ?thesis
    by (simp add: get_social_graph_def prof frs fws demo_graph_def entry_def)
qed

text \<open>
  C1. For every social graph built by \<open>get_social_graph\<close>, the mutuals are the follows
  whose identifier occurs among the identifiers of the followers, in the order of the
  follows; so every mutual is a follow, and the identifier of every mutual is the
  identifier of a follower.
\<close>

theorem get_social_graph_mutuals:
  assumes "get_social_graph srv log c act = Some (log', Inr g)"
  shows "mutuals g = filter (\<lambda>f. did f \<in> set (map did (followers g))) (follows g)
         \<and> set (mutuals g) \<subseteq> set (follows g)
         \<and> (\<forall>m \<in> set (mutuals g). did m \<in> set (map did (followers g)))"
proof -
  have m: "mutuals g = filter (\<lambda>f. did f \<in> set (map did (followers g))) (follows g)"
    using assms by (rule get_social_graph_built)
  have "set (mutuals g) \<subseteq> set (follows g)"
    by (subst m) simp
  moreover have "\<forall>m \<in> set (mutuals g). did m \<in> set (map did (followers g))"
    by (subst m) simp
  ultimately show ?thesis using m by blast
qed

theorem get_social_graph_mutuals_witness:
  "get_social_graph demo_service [] anonymous ''me''
   = Some ([profile_request anonymous ''me'',
            page_request anonymous ''app.bsky.graph.getFollowers'' ''me'' None,
            page_request anonymous ''app.bsky.graph.getFollows'' ''me'' None],
           Inr demo_graph)
   \<and> mutuals demo_graph
     = filter (\<lambda>f. did f \<in> set (map did (followers demo_graph))) (follows demo_graph)
   \<and> mutuals demo_graph = [entry ''b'']
   \<and> set (mutuals demo_graph) \<subseteq> set (follows demo_graph)
   \<and> did (entry ''b'') \<in> set (map did (followers demo_graph))"
proof -
  from get_social_graph_mutuals [OF demo_run]
  have a: "mutuals demo_graph
        = filter (\<lambda>f. did f \<in> set (map did (followers demo_graph))) (follows demo_graph)"
    and b: "set (mutuals demo_graph) \<subseteq> set (follows demo_graph)"
    and c: "\<forall>m \<in> set (mutuals demo_graph). did m \<in> set (map did (followers demo_graph))"
    by blast+
  have d: "mutuals demo_graph = [entry ''b'']"
    by (simp add: demo_graph_def)
  then have "entry ''b'' \<in> set (mutuals demo_graph)" by simp
  with c have e: "did (entry ''b'') \<in> set (map did (followers demo_graph))" by blast
  from demo_run a b d e show ?thesis by blast
qed

text \<open>
  C4. When the graph built has the followers A, B, C and the follows B, D, with four
  distinct identifiers, the mutuals are B, the fans (followers whose identifier is not
  among the follows) are A and C, and the accounts not following back (follows whose
  identifier is not among the followers) are D.
\<close>

theorem scenario_derived_sets:
  assumes "get_social_graph srv log c act = Some (log', Inr g)"
    and "followers g = [A, B, C]"
    and "follows g = [B, D]"
    and "distinct (map did [A, B, C, D])"
  shows "mutuals g = [B] \<and> print_summary_fans g = [A, C]
         \<and> print_summary_not_followed_back g = [D]"
proof -
  have m: "mutuals g = filter (\<lambda>f. did f \<in> set (map did (followers g))) (follows g)"
    using assms(1) by (rule get_social_graph_built)
  have "mutuals g = [B]"
    using assms(2-4) by (subst m) auto
  moreover have "print_summary_fans g = [A, C]"
    using assms(2-4) by (auto simp: print_summary_fans_def)
  moreover have "print_summary_not_followed_back g = [D]"
    using assms(2-4) by (auto simp: print_summary_not_followed_back_def)
  ultimately show ?thesis by blast
qed

theorem scenario_derived_sets_witness:
  "followers demo_graph = [entry ''a'', entry ''b'', entry ''c'']
   \<and> follows demo_graph = [entry ''b'', entry ''d'']
   \<and> distinct (map did [entry ''a'', entry ''b'', entry ''c'', entry ''d''])
   \<and> mutuals demo_graph = [entry ''b'']
   \<and> print_summary_fans demo_graph = [entry ''a'', entry ''c'']
   \<and> print_summary_not_followed_back demo_graph = [entry ''d'']"
proof -
  have h2: "followers demo_graph = [entry ''a'', entry ''b'', entry ''c'']"
    by (simp add: demo_graph_def)
  have h3: "follows demo_graph = [entry ''b'', entry ''d'']"
    by (simp add: demo_graph_def)
  have h4: "distinct (map did [entry ''a'', entry ''b'', entry ''c'', entry ''d''])"
    by (simp add: entry_def)
  from scenario_derived_sets [OF demo_run h2 h3 h4] h2 h3 h4
  show ?thesis by simp
qed

section \<open>The exporters\<close>

lemma entry_row_cells:
  "entry_row rel e = [rel, did e, handle e, display_name e, description e, indexed_at e]"
  by (simp add: entry_row_def writerow_def fieldnames_def)

lemma in_map_filter:
  "y \<in> set (map f (filter (\<lambda>x. f x \<in> S) xs)) \<longleftrightarrow> y \<in> set (map f xs) \<and> y \<in> S"
  by (induction xs) auto

lemma length_filter_card:
  assumes "distinct (map f xs)"
  shows "length (filter (\<lambda>x. f x \<in> S) xs) = card (set (map f xs) \<inter> S)"
proof -
  have "filter (\<lambda>y. y \<in> S) (map f xs) = map f (filter (\<lambda>x. f x \<in> S) xs)"
    by (simp add: filter_map comp_def)
  then have "length (filter (\<lambda>x. f x \<in> S) xs) = length (filter (\<lambda>y. y \<in> S) (map f xs))"
    by simp
  also have "\<dots> = card (set (filter (\<lambda>y. y \<in> S) (map f xs)))"
  proof -
    have "distinct (filter (\<lambda>y. y \<in> S) (map f xs))"
      using assms by (rule distinct_filter)
    then show ?thesis by (rule distinct_card [symmetric])
  qed
  also have "set (filter (\<lambda>y. y \<in> S) (map f xs)) = set (map f xs) \<inter> S"
    by auto
  finally show ?thesis .
qed

lemma export_csv_rows_length:
  "length (export_csv_rows g)
   = length (followers g)
     + (length (follows g)
        - length (filter (\<lambda>e. did e \<in> set (map did (followers g))) (follows g)))"
proof -
  have "length (filter (\<lambda>e. did e \<in> set (map did (followers g))) (follows g))
        + length (filter (\<lambda>e. \<not> did e \<in> set (map did (followers g))) (follows g))
        = length (follows g)"
    by (rule sum_length_filter_compl)
  then show ?thesis
    by (simp add: export_csv_rows_def Let_def)
qed

lemma repeated_follow_run:
  "get_social_graph repeated_follow_service [] anonymous ''me''
   = Some ([profile_request anonymous ''me'',
            page_request anonymous ''app.bsky.graph.getFollowers'' ''me'' None,
            page_request anonymous ''app.bsky.graph.getFollows'' ''me'' None],
           Inr repeated_follow_graph)"
proof -
  let ?p = "profile_request anonymous ''me''"
  let ?f = "page_request anonymous ''app.bsky.graph.getFollowers'' ''me'' None"
  have prof: "get_profile repeated_follow_service [] anonymous ''me''
              = ([?p], Inr demo_profile)"
    by (simp add: get_profile_def session_get_def profile_request_def
          repeated_follow_service_def ok_def raise_for_status_def demo_profile_def)
  have st1: "stops ''followers'' (repeated_follow_service (length [?p]))"
    by (simp add: stops_def repeated_follow_service_def ok_def truthy_def)
  have frs: "get_followers repeated_follow_service [?p] anonymous ''me''
             = Some ([?p, ?f], Inr [entry ''b''])"
    unfolding get_followers_def paginate_def
    by (simp add: paginate_loop_stop [where srv = repeated_follow_service, OF st1])
       (simp add: page_outcome_def repeated_follow_service_def ok_def raise_for_status_def
          page_items_def person_entry)
  have st2: "stops ''follows'' (repeated_follow_service (length [?p, ?f]))"
    by (simp add: stops_def repeated_follow_service_def ok_def truthy_def)
  have fws: "get_follows repeated_follow_service [?p, ?f] anonymous ''me''
             = Some ([?p, ?f,
                      page_request anonymous ''app.bsky.graph.getFollows'' ''me'' None],
                     Inr [entry ''b'', entry ''b''])"
    unfolding get_follows_def paginate_def
    by (simp add: paginate_loop_stop [where srv = repeated_follow_service, OF st2])
       (simp add: page_outcome_def repeated_follow_service_def ok_def raise_for_status_def
          page_items_def person_entry)
  show ?thesis
    by (simp add: get_social_graph_def prof frs fws repeated_follow_graph_def entry_def)
qed

text \<open>
  C3 (as amended). For every graph \<open>get_social_graph\<close> builds, the CSV export writes the
  header, then one row per follower, labelled mutual when the identifier of the follower
  is among the follows and follower otherwise, then one row labelled following per follow
  whose identifier is not among the followers, so that no follow whose identifier is
  among the followers gets a row in the second pass. The number of data rows is the
  number of followers plus the number of follows less the number of follows whose
  identifier is among the followers; when no identifier occurs twice among the follows
  it is the number of followers plus the number of follows less the size of the
  intersection of the two sets of identifiers.
\<close>

theorem export_csv_rows_built:
  assumes "get_social_graph srv log c act = Some (log', Inr g)"
  shows "export_csv fmt g path fs path
           = Some (concat (map fmt (fieldnames # export_csv_rows g)))
         \<and> export_csv_rows g
           = map (\<lambda>e. [if did e \<in> set (map did (follows g)) then ''mutual''
                        else ''follower'',
                        did e, handle e, display_name e, description e, indexed_at e])
               (followers g)
             @ map (\<lambda>e. [''following'', did e, handle e, display_name e, description e,
                          indexed_at e])
                 (filter (\<lambda>e. did e \<notin> set (map did (followers g))) (follows g))
         \<and> length (export_csv_rows g)
           = length (followers g)
             + (length (follows g)
                - length (filter (\<lambda>e. did e \<in> set (map did (followers g))) (follows g)))
         \<and> (distinct (map did (follows g)) \<longrightarrow>
              length (export_csv_rows g)
              = length (followers g)
                + (length (follows g)
                   - card (set (map did (follows g)) \<inter> set (map did (followers g)))))"
proof -
  have m: "mutuals g = filter (\<lambda>f. did f \<in> set (map did (followers g))) (follows g)"
    using assms by (rule get_social_graph_built)
  have written: "export_csv fmt g path fs path
                = Some (concat (map fmt (fieldnames # export_csv_rows g)))"
    by (simp add: export_csv_def)
  have label: "did e \<in> set (map did (mutuals g)) \<longleftrightarrow> did e \<in> set (map did (follows g))"
    if "e \<in> set (followers g)" for e
  proof -
    from that have e: "did e \<in> set (map did (followers g))" by simp
    have "did e \<in> set (map did (mutuals g))
          \<longleftrightarrow> did e \<in> set (map did (follows g))
              \<and> did e \<in> set (map did (followers g))"
      by (subst m) (rule in_map_filter)
    with e show ?thesis by blast
  qed
  have rows: "export_csv_rows g
           = map (\<lambda>e. [if did e \<in> set (map did (follows g)) then ''mutual''
                        else ''follower'',
                        did e, handle e, display_name e, description e, indexed_at e])
               (followers g)
             @ map (\<lambda>e. [''following'', did e, handle e, display_name e, description e,
                          indexed_at e])
                 (filter (\<lambda>e. did e \<notin> set (map did (followers g))) (follows g))"
    unfolding export_csv_rows_def Let_def entry_row_cells
    using label by (intro arg_cong2 [where f = append] map_cong refl) simp
  have len: "length (export_csv_rows g)
           = length (followers g)
             + (length (follows g)
                - length (filter (\<lambda>e. did e \<in> set (map did (followers g))) (follows g)))"
    by (rule export_csv_rows_length)
  have card: "distinct (map did (follows g)) \<longrightarrow>
              length (export_csv_rows g)
              = length (followers g)
                + (length (follows g)
                   - card (set (map did (follows g)) \<inter> set (map did (followers g))))"
  proof
    assume "distinct (map did (follows g))"
    then have eq: "length (filter (\<lambda>e. did e \<in> set (map did (followers g))) (follows g))
               = card (set (map did (follows g)) \<inter> set (map did (followers g)))"
      by (rule length_filter_card)
    show "length (export_csv_rows g)
              = length (followers g)
                + (length (follows g)
                   - card (set (map did (follows g)) \<inter> set (map did (followers g))))"
      using len unfolding eq .
  qed
  from written rows len card show ?thesis by blast
qed

theorem export_csv_rows_built_witness:
  "get_social_graph demo_service [] anonymous ''me''
     = Some ([profile_request anonymous ''me'',
              page_request anonymous ''app.bsky.graph.getFollowers'' ''me'' None,
              page_request anonymous ''app.bsky.graph.getFollows'' ''me'' None],
             Inr demo_graph)
   \<and> distinct (map did (follows demo_graph))
   \<and> export_csv_rows demo_graph
     = [[''follower'', ''a'', ''a.bsky.social'', '''', '''', ''''],
        [''mutual'', ''b'', ''b.bsky.social'', '''', '''', ''''],
        [''follower'', ''c'', ''c.bsky.social'', '''', '''', ''''],
        [''following'', ''d'', ''d.bsky.social'', '''', '''', '''']]
   \<and> length (export_csv_rows demo_graph) = 3 + (2 - 1)
   \<and> card (set (map did (follows demo_graph)) \<inter> set (map did (followers demo_graph))) = 1"
proof -
  have d: "distinct (map did (follows demo_graph))"
    by (simp add: demo_graph_def entry_def)
  have k: "card (set (map did (follows demo_graph)) \<inter> set (map did (followers demo_graph)))
           = 1"
    by (simp add: demo_graph_def entry_def)
  note t = export_csv_rows_built [OF demo_run]
  from t have "export_csv_rows demo_graph
           = map (\<lambda>e. [if did e \<in> set (map did (follows demo_graph)) then ''mutual''
                        else ''follower'',
                        did e, handle e, display_name e, description e, indexed_at e])
               (followers demo_graph)
             @ map (\<lambda>e. [''following'', did e, handle e, display_name e, description e,
                          indexed_at e])
                 (filter (\<lambda>e. did e \<notin> set (map did (followers demo_graph)))
                    (follows demo_graph))"
    by blast
  then have rows: "export_csv_rows demo_graph
     = [[''follower'', ''a'', ''a.bsky.social'', '''', '''', ''''],
        [''mutual'', ''b'', ''b.bsky.social'', '''', '''', ''''],
        [''follower'', ''c'', ''c.bsky.social'', '''', '''', ''''],
        [''following'', ''d'', ''d.bsky.social'', '''', '''', '''']]"
    by (simp add: demo_graph_def entry_def)
  from t d have "length (export_csv_rows demo_graph)
              = length (followers demo_graph)
                + (length (follows demo_graph)
                   - card (set (map did (follows demo_graph))
                             \<inter> set (map did (followers demo_graph))))"
    by blast
  then have len: "length (export_csv_rows demo_graph) = 3 + (2 - 1)"
    by (simp only: k) (simp add: demo_graph_def)
  from demo_run d rows len k show ?thesis by blast
qed

theorem export_csv_repeated_follow_counterexample:
  "get_social_graph repeated_follow_service [] anonymous ''me''
     = Some ([profile_request anonymous ''me'',
              page_request anonymous ''app.bsky.graph.getFollowers'' ''me'' None,
              page_request anonymous ''app.bsky.graph.getFollows'' ''me'' None],
             Inr repeated_follow_graph)
   \<and> export_csv_rows repeated_follow_graph
     = [[''mutual'', ''b'', ''b.bsky.social'', '''', '''', '''']]
   \<and> length (export_csv_rows repeated_follow_graph) = 1
   \<and> length (followers repeated_follow_graph)
       + (length (follows repeated_follow_graph)
          - card (set (map did (follows repeated_follow_graph))
                    \<inter> set (map did (followers repeated_follow_graph))))
     = 2"
proof -
  have rows: "export_csv_rows repeated_follow_graph
     = [[''mutual'', ''b'', ''b.bsky.social'', '''', '''', '''']]"
    by (simp add: export_csv_rows_def repeated_follow_graph_def entry_row_cells entry_def)
  then have len: "length (export_csv_rows repeated_follow_graph) = 1"
    by simp
  have "card (set (map did (follows repeated_follow_graph))
                \<inter> set (map did (followers repeated_follow_graph))) = 1"
    by (simp add: repeated_follow_graph_def entry_def)
  then have n: "length (followers repeated_follow_graph)
       + (length (follows repeated_follow_graph)
          - card (set (map did (follows repeated_follow_graph))
                    \<inter> set (map did (followers repeated_follow_graph))))
     = 2"
    by (simp add: repeated_follow_graph_def)
  from repeated_follow_run rows len n show ?thesis by blast
qed

text \<open>
  C8. The JSON export writes the serialisation of an object with these members: the
  actor; the profile with its seven fields, or null when the graph has none; the
  followers, the follows and the mutuals, every entry of each list as an object with its
  five fields, in order; and a stats object whose three counts are the lengths of the
  three lists exported.
\<close>

theorem export_json_contents:
  "export_json dumps g path fs path = Some (dumps (export_json_data g))
   \<and> jget (export_json_data g) ''actor'' = Some (JStr (actor g))
   \<and> jget (export_json_data g) ''profile''
     = Some (case profile g of
               None \<Rightarrow> JNull
             | Some p \<Rightarrow>
                 JObj [(''did'', JStr (p_did p)), (''handle'', JStr (p_handle p)),
                       (''display_name'', JStr (p_display_name p)),
                       (''description'', JStr (p_description p)),
                       (''followers_count'', JInt (followers_count p)),
                       (''follows_count'', JInt (follows_count p)),
                       (''posts_count'', JInt (posts_count p))])
   \<and> jget (export_json_data g) ''followers''
     = Some (JList (map (\<lambda>e. JObj [(''did'', JStr (did e)), (''handle'', JStr (handle e)),
                                    (''display_name'', JStr (display_name e)),
                                    (''description'', JStr (description e)),
                                    (''indexed_at'', JStr (indexed_at e))])
                      (followers g)))
   \<and> jget (export_json_data g) ''follows''
     = Some (JList (map (\<lambda>e. JObj [(''did'', JStr (did e)), (''handle'', JStr (handle e)),
                                    (''display_name'', JStr (display_name e)),
                                    (''description'', JStr (description e)),
                                    (''indexed_at'', JStr (indexed_at e))])
                      (follows g)))
   \<and> jget (export_json_data g) ''mutuals''
     = Some (JList (map (\<lambda>e. JObj [(''did'', JStr (did e)), (''handle'', JStr (handle e)),
                                    (''display_name'', JStr (display_name e)),
                                    (''description'', JStr (description e)),
                                    (''indexed_at'', JStr (indexed_at e))])
                      (mutuals g)))
   \<and> jget (export_json_data g) ''stats''
     = Some (JObj [(''followers_count'', JInt (int (length (followers g)))),
                   (''follows_count'', JInt (int (length (follows g)))),
                   (''mutuals_count'', JInt (int (length (mutuals g))))])
   \<and> jcount (export_json_data g) ''followers'' = Some (JInt (int (length (followers g))))
   \<and> jcount (export_json_data g) ''follows'' = Some (JInt (int (length (follows g))))
   \<and> jcount (export_json_data g) ''mutuals'' = Some (JInt (int (length (mutuals g))))"
proof -
  let ?d = "export_json_data g"
  have w: "export_json dumps g path fs path = Some (dumps ?d)"
    by (simp add: export_json_def)
  have a: "jget ?d ''actor'' = Some (JStr (actor g))"
    by (simp add: export_json_data_def)
  have p: "jget ?d ''profile''
     = Some (case profile g of
               None \<Rightarrow> JNull
             | Some p \<Rightarrow>
                 JObj [(''did'', JStr (p_did p)), (''handle'', JStr (p_handle p)),
                       (''display_name'', JStr (p_display_name p)),
                       (''description'', JStr (p_description p)),
                       (''followers_count'', JInt (followers_count p)),
                       (''follows_count'', JInt (follows_count p)),
                       (''posts_count'', JInt (posts_count p))])"
    by (simp add: export_json_data_def asdict_Profile_def split: option.splits)
  have e: "asdict_GraphEntry
           = (\<lambda>e. JObj [(''did'', JStr (did e)), (''handle'', JStr (handle e)),
                         (''display_name'', JStr (display_name e)),
                         (''description'', JStr (description e)),
                         (''indexed_at'', JStr (indexed_at e))])"
    by (rule ext) (simp add: asdict_GraphEntry_def)
  have l1: "jget ?d ''followers'' = Some (JList (map asdict_GraphEntry (followers g)))"
    and l2: "jget ?d ''follows'' = Some (JList (map asdict_GraphEntry (follows g)))"
    and l3: "jget ?d ''mutuals'' = Some (JList (map asdict_GraphEntry (mutuals g)))"
    by (simp_all add: export_json_data_def)
  have s: "jget ?d ''stats''
     = Some (JObj [(''followers_count'', JInt (int (length (followers g)))),
                   (''follows_count'', JInt (int (length (follows g)))),
                   (''mutuals_count'', JInt (int (length (mutuals g))))])"
    by (simp add: export_json_data_def)
  have c1: "jcount ?d ''followers'' = Some (JInt (int (length (followers g))))"
    and c2: "jcount ?d ''follows'' = Some (JInt (int (length (follows g))))"
    and c3: "jcount ?d ''mutuals'' = Some (JInt (int (length (mutuals g))))"
    by (simp_all add: jcount_def l1 l2 l3)
  from w a p l1 l2 l3 s c1 c2 c3 show ?thesis
    unfolding e by blast
qed

theorem export_json_contents_witness:
  "jget (export_json_data demo_graph) ''actor'' = Some (JStr ''me'')
   \<and> jget (export_json_data demo_graph) ''profile''
     = Some (JObj [(''did'', JStr ''me''), (''handle'', JStr ''me.bsky.social''),
                   (''display_name'', JStr ''''), (''description'', JStr ''''),
                   (''followers_count'', JInt 0), (''follows_count'', JInt 0),
                   (''posts_count'', JInt 0)])
   \<and> jget (export_json_data demo_graph) ''mutuals''
     = Some (JList [JObj [(''did'', JStr ''b''), (''handle'', JStr ''b.bsky.social''),
                          (''display_name'', JStr ''''), (''description'', JStr ''''),
                          (''indexed_at'', JStr '''')]])
   \<and> jget (export_json_data demo_graph) ''stats''
     = Some (JObj [(''followers_count'', JInt 3), (''follows_count'', JInt 2),
                   (''mutuals_count'', JInt 1)])
   \<and> jcount (export_json_data demo_graph) ''followers'' = Some (JInt 3)
   \<and> jcount (export_json_data demo_graph) ''follows'' = Some (JInt 2)
   \<and> jcount (export_json_data demo_graph) ''mutuals'' = Some (JInt 1)"
  using export_json_contents [of "\<lambda>j. ''''" demo_graph "''out.json''" Map.empty]
  by (simp add: demo_graph_def demo_profile_def entry_def)

section \<open>Endpoints and login\<close>

lemma get_profile_log: "fst (get_profile srv log c act) = log @ [profile_request c act]"
  by (simp add: get_profile_def session_get_def profile_request_def Let_def
           split: option.splits)

lemma login_authenticated:
  "login srv log c hdl pw = (log', Inr c') \<Longrightarrow> authenticated c'"
  by (auto simp: login_def session_post_def Let_def split: option.splits)

lemma BlueskyClient_authenticated:
  assumes "BlueskyClient srv log hdl pw = (log', Inr c')"
  shows "authenticated c' \<longleftrightarrow> truthy hdl \<and> truthy pw"
proof (cases "truthy hdl \<and> truthy pw")
  case True
  with assms show ?thesis
    by (auto simp: BlueskyClient_def dest: login_authenticated)
next
  case False
  with assms show ?thesis
    by (auto simp: BlueskyClient_def)
qed

lemma signed_in_run:
  "BlueskyClient login_service [] (Some ''me.bsky.social'') (Some ''pw'')
   = ([login_request ''me.bsky.social'' ''pw''], Inr signed_in)"
  by (simp add: BlueskyClient_def truthy_def login_def session_post_def login_request_def
        login_service_def ok_def raise_for_status_def signed_in_def)

lemma signed_in_followers:
  "paginate login_service
     [login_request ''me.bsky.social'' ''pw'', profile_request signed_in ''me'']
     signed_in ''app.bsky.graph.getFollowers'' ''me'' ''followers''
   = Some ([login_request ''me.bsky.social'' ''pw'', profile_request signed_in ''me'',
            page_request signed_in ''app.bsky.graph.getFollowers'' ''me'' None],
           Inr [entry ''a'', entry ''b'', entry ''c''])"
proof -
  have st: "stops ''followers''
              (login_service
                 (length [login_request ''me.bsky.social'' ''pw'',
                          profile_request signed_in ''me'']))"
    by (simp add: stops_def login_service_def demo_service_def ok_def truthy_def)
  show ?thesis
    unfolding paginate_def
    by (simp add: paginate_loop_stop [where srv = login_service, OF st])
       (simp add: page_outcome_def login_service_def demo_service_def ok_def
          raise_for_status_def page_items_def person_entry)
qed

text \<open>
  C6. Whatever the state of the client, \<open>get_profile\<close> sends exactly one request, to the
  public base URL; every request of the paginator goes to the base URL of the client,
  which is the authenticated one exactly when the client is authenticated; and a client
  that was constructed is authenticated exactly when a handle and a password were given,
  that is when the login was made and succeeded. The two base URLs differ.
\<close>

theorem profile_public_lists_by_login:
  "fst (get_profile srv log c act) = log @ [profile_request c act]
   \<and> url (profile_request c act) = PUBLIC_API @ ''/app.bsky.actor.getProfile''
   \<and> url (page_request c endpoint act cursor)
     = (if authenticated c then AUTH_API else PUBLIC_API) @ ''/'' @ endpoint
   \<and> (\<forall>log' r. paginate srv log c endpoint act key = Some (log', r) \<longrightarrow>
         take (length log) log' = log
         \<and> (\<forall>q \<in> set (drop (length log) log').
               url q = (if authenticated c then AUTH_API else PUBLIC_API) @ ''/'' @ endpoint))
   \<and> (\<forall>log' c'. BlueskyClient srv log hdl pw = (log', Inr c') \<longrightarrow>
         (authenticated c' \<longleftrightarrow> truthy hdl \<and> truthy pw))
   \<and> AUTH_API \<noteq> PUBLIC_API"
proof (intro conjI allI impI)
  show "fst (get_profile srv log c act) = log @ [profile_request c act]"
    by (rule get_profile_log)
  show "url (profile_request c act) = PUBLIC_API @ ''/app.bsky.actor.getProfile''"
    by (simp add: profile_request_def)
  show "url (page_request c endpoint act cursor)
        = (if authenticated c then AUTH_API else PUBLIC_API) @ ''/'' @ endpoint"
    by (simp add: page_request_def base_url_def)
  show "AUTH_API \<noteq> PUBLIC_API"
    by (simp add: AUTH_API_def PUBLIC_API_def)
next
  fix log' r
  assume "paginate srv log c endpoint act key = Some (log', r)"
  then have run: "paginate_loop srv c endpoint act key log [] None 0 = Some (log', r)"
    by (simp add: paginate_def)
  from paginate_loop_result [OF run]
  show "take (length log) log' = log" by blast
  from paginate_loop_result [OF run]
  have "\<forall>q \<in> set (drop (length log) log'). url q = base_url c @ ''/'' @ endpoint"
    by blast
  then show "\<forall>q \<in> set (drop (length log) log').
               url q = (if authenticated c then AUTH_API else PUBLIC_API) @ ''/'' @ endpoint"
    by (simp add: base_url_def)
next
  fix log' c'
  assume "BlueskyClient srv log hdl pw = (log', Inr c')"
  then show "authenticated c' \<longleftrightarrow> truthy hdl \<and> truthy pw"
    by (rule BlueskyClient_authenticated)
qed

theorem profile_public_lists_by_login_witness:
  "BlueskyClient login_service [] (Some ''me.bsky.social'') (Some ''pw'')
     = ([login_request ''me.bsky.social'' ''pw''], Inr signed_in)
   \<and> authenticated signed_in
   \<and> fst (get_profile login_service [login_request ''me.bsky.social'' ''pw''] signed_in
            ''me'')
     = [login_request ''me.bsky.social'' ''pw'', profile_request signed_in ''me'']
   \<and> url (profile_request signed_in ''me'')
     = ''https://public.api.bsky.app/xrpc/app.bsky.actor.getProfile''
   \<and> paginate login_service
       [login_request ''me.bsky.social'' ''pw'', profile_request signed_in ''me'']
       signed_in ''app.bsky.graph.getFollowers'' ''me'' ''followers''
     = Some ([login_request ''me.bsky.social'' ''pw'', profile_request signed_in ''me'',
              page_request signed_in ''app.bsky.graph.getFollowers'' ''me'' None],
             Inr [entry ''a'', entry ''b'', entry ''c''])
   \<and> url (page_request signed_in ''app.bsky.graph.getFollowers'' ''me'' None)
     = ''https://bsky.social/xrpc/app.bsky.graph.getFollowers''"
proof -
  note t = profile_public_lists_by_login [of login_service
      "[login_request ''me.bsky.social'' ''pw'', profile_request signed_in ''me'']"
      signed_in "''me''" "''app.bsky.graph.getFollowers''" None "''followers''"
      "Some ''me.bsky.social''" "Some ''pw''"]
  note u = profile_public_lists_by_login [of login_service "[]" signed_in "''me''"
      "''app.bsky.graph.getFollowers''" None "''followers''"
      "Some ''me.bsky.social''" "Some ''pw''"]
  from u signed_in_run
  have "authenticated signed_in \<longleftrightarrow> truthy (Some ''me.bsky.social'') \<and> truthy (Some ''pw'')"
    by blast
  then have a: "authenticated signed_in" by (simp add: truthy_def)
  have p: "fst (get_profile login_service [login_request ''me.bsky.social'' ''pw'']
                 signed_in ''me'')
           = [login_request ''me.bsky.social'' ''pw'', profile_request signed_in ''me'']"
    using profile_public_lists_by_login [of login_service
        "[login_request ''me.bsky.social'' ''pw'']" signed_in "''me''"]
    by simp
  from t have "url (profile_request signed_in ''me'')
               = PUBLIC_API @ ''/app.bsky.actor.getProfile''" by blast
  then have pu: "url (profile_request signed_in ''me'')
     = ''https://public.api.bsky.app/xrpc/app.bsky.actor.getProfile''"
    by (simp add: PUBLIC_API_def)
  from t signed_in_followers
  have "\<forall>q \<in> set (drop (length [login_request ''me.bsky.social'' ''pw'',
                                  profile_request signed_in ''me''])
                     [login_request ''me.bsky.social'' ''pw'', profile_request signed_in ''me'',
                      page_request signed_in ''app.bsky.graph.getFollowers'' ''me'' None]).
          url q = (if authenticated signed_in then AUTH_API else PUBLIC_API)
                  @ ''/'' @ ''app.bsky.graph.getFollowers''"
    by blast
  then have qu: "url (page_request signed_in ''app.bsky.graph.getFollowers'' ''me'' None)
     = ''https://bsky.social/xrpc/app.bsky.graph.getFollowers''"
    using a by (simp add: AUTH_API_def)
  from signed_in_run a p pu signed_in_followers qu show ?thesis by blast
qed

text \<open>
  C7 (as amended). When a handle and a password are given and the response to the
  session request has an error status (400 to 599), the run ends with exit code 1, the
  session request is the only request it made, and no file is written.
\<close>

theorem failed_login_exits_1:
  assumes "truthy (arg_handle a)" and "truthy (arg_password a)"
    and "400 \<le> status_code (srv 0)" and "status_code (srv 0) < 600"
  shows "\<exists>r. main dumps fmt srv fs a = Some r \<and> exit_code (ended r) = 1
           \<and> requests r = [login_request (the (arg_handle a)) (the (arg_password a))]
           \<and> files r = fs"
proof -
  have "BlueskyClient srv [] (arg_handle a) (arg_password a)
        = ([login_request (the (arg_handle a)) (the (arg_password a))],
           Inl (HTTPError (status_code (srv 0))))"
    using assms
    by (simp add: BlueskyClient_def login_def session_post_def login_request_def
          raise_for_status_def)
  then show ?thesis
    by (simp add: main_def)
qed

theorem failed_login_exits_1_witness:
  "truthy (arg_handle demo_args) \<and> truthy (arg_password demo_args)
   \<and> status_code (failed_login_service 0) = 401
   \<and> (\<exists>r. main (\<lambda>j. '''') (\<lambda>row. '''') failed_login_service Map.empty demo_args = Some r
          \<and> exit_code (ended r) = 1
          \<and> requests r = [login_request ''me.bsky.social'' ''pw''])"
proof -
  have h1: "truthy (arg_handle demo_args)" by (simp add: demo_args_def truthy_def)
  have h2: "truthy (arg_password demo_args)" by (simp add: demo_args_def truthy_def)
  have s: "status_code (failed_login_service 0) = 401"
    by (simp add: failed_login_service_def)
  have h3: "400 \<le> status_code (failed_login_service 0)" by (simp add: s)
  have h4: "status_code (failed_login_service 0) < 600" by (simp add: s)
  from failed_login_exits_1 [where a = demo_args and srv = failed_login_service
         and dumps = "\<lambda>j. ''''" and fmt = "\<lambda>row. ''''" and fs = Map.empty,
         OF h1 h2 h3 h4]
  obtain r where "main (\<lambda>j. '''') (\<lambda>row. '''') failed_login_service Map.empty demo_args = Some r"
    and "exit_code (ended r) = 1"
    and "requests r = [login_request (the (arg_handle demo_args)) (the (arg_password demo_args))]"
    by blast
  then have "\<exists>r. main (\<lambda>j. '''') (\<lambda>row. '''') failed_login_service Map.empty demo_args = Some r
          \<and> exit_code (ended r) = 1
          \<and> requests r = [login_request ''me.bsky.social'' ''pw'']"
    by (simp add: demo_args_def)
  with h1 h2 s show ?thesis by blast
qed

lemma redirect_login_run:
  "BlueskyClient redirect_login_service [] (Some ''me.bsky.social'') (Some ''pw'')
   = ([login_request ''me.bsky.social'' ''pw''], Inr signed_in)"
  by (simp add: BlueskyClient_def truthy_def login_def session_post_def login_request_def
        redirect_login_service_def raise_for_status_def signed_in_def)

lemma redirect_graph_run:
  "get_social_graph redirect_login_service [login_request ''me.bsky.social'' ''pw'']
     signed_in ''me''
   = Some ([login_request ''me.bsky.social'' ''pw'', profile_request signed_in ''me'',
            page_request signed_in ''app.bsky.graph.getFollowers'' ''me'' None,
            page_request signed_in ''app.bsky.graph.getFollows'' ''me'' None],
           Inr demo_graph)"
proof -
  let ?l = "login_request ''me.bsky.social'' ''pw''"
  let ?p = "profile_request signed_in ''me''"
  let ?f = "page_request signed_in ''app.bsky.graph.getFollowers'' ''me'' None"
  have prof: "get_profile redirect_login_service [?l] signed_in ''me''
              = ([?l, ?p], Inr demo_profile)"
    by (simp add: get_profile_def session_get_def profile_request_def
          redirect_login_service_def demo_service_def ok_def raise_for_status_def
          demo_profile_def)
  have st1: "stops ''followers'' (redirect_login_service (length [?l, ?p]))"
    by (simp add: stops_def redirect_login_service_def demo_service_def ok_def truthy_def)
  have frs: "get_followers redirect_login_service [?l, ?p] signed_in ''me''
             = Some ([?l, ?p, ?f], Inr [entry ''a'', entry ''b'', entry ''c''])"
    unfolding get_followers_def paginate_def
    by (simp add: paginate_loop_stop [where srv = redirect_login_service, OF st1])
       (simp add: page_outcome_def redirect_login_service_def demo_service_def ok_def
          raise_for_status_def page_items_def person_entry)
  have st2: "stops ''follows'' (redirect_login_service (length [?l, ?p, ?f]))"
    by (simp add: stops_def redirect_login_service_def demo_service_def ok_def truthy_def)
  have fws: "get_follows redirect_login_service [?l, ?p, ?f] signed_in ''me''
             = Some ([?l, ?p, ?f,
                      page_request signed_in ''app.bsky.graph.getFollows'' ''me'' None],
                     Inr [entry ''b'', entry ''d''])"
    unfolding get_follows_def paginate_def
    by (simp add: paginate_loop_stop [where srv = redirect_login_service, OF st2])
       (simp add: page_outcome_def redirect_login_service_def demo_service_def ok_def
          raise_for_status_def page_items_def person_entry)
  show ?thesis
    by (simp add: get_social_graph_def prof frs fws demo_graph_def entry_def)
qed

theorem login_status_300_counterexample:
  "truthy (arg_handle demo_args) \<and> truthy (arg_password demo_args)
   \<and> status_code (redirect_login_service 0) = 300
   \<and> main (\<lambda>j. '''') (\<lambda>row. '''') redirect_login_service Map.empty demo_args
     = Some \<lparr>ended = Returned,
             requests =
               [login_request ''me.bsky.social'' ''pw'', profile_request signed_in ''me'',
                page_request signed_in ''app.bsky.graph.getFollowers'' ''me'' None,
                page_request signed_in ''app.bsky.graph.getFollows'' ''me'' None],
             files = Map.empty\<rparr>
   \<and> exit_code Returned = 0"
  by (simp add: main_def demo_args_def truthy_def redirect_login_run redirect_graph_run
        redirect_login_service_def)

section \<open>Cursors and fields\<close>

lemma mk_entry_cases:
  "mk_entry it =
     (if it ''did'' = None then Inl (KeyError ''did'')
      else if it ''handle'' = None then Inl (KeyError ''handle'')
      else Inr (entry_of it))"
  by (auto simp: mk_entry_def entry_of_def split: option.splits)

lemma mk_entries_isl:
  "isl (mk_entries its) \<longleftrightarrow> (\<exists>it \<in> set its. it ''did'' = None \<or> it ''handle'' = None)"
  by (induction its) (auto simp: mk_entry_cases split: sum.splits)

lemma mk_entries_KeyError:
  "mk_entries its = Inl e \<Longrightarrow> e = KeyError ''did'' \<or> e = KeyError ''handle''"
  by (induction its) (auto simp: mk_entry_cases split: sum.splits if_splits)

lemma get_profile_cases:
  assumes "raise_for_status (srv (length log)) = None"
  shows "snd (get_profile srv log c act) =
           (if strs (json (srv (length log))) ''did'' = None then Inl (KeyError ''did'')
            else if strs (json (srv (length log))) ''handle'' = None
            then Inl (KeyError ''handle'')
            else Inr (profile_of (json (srv (length log)))))"
  using assms
  by (auto simp: get_profile_def session_get_def profile_of_def Let_def
           split: option.splits)

text \<open>
  C9. When the response to the next request of the loop carries a cursor that is the
  empty string, the loop ends at that response, and it ends as it does when the same
  response carries no cursor: same log, same outcome.
\<close>

theorem empty_cursor_stops_like_absent:
  assumes "strs (json (srv (length log))) ''cursor'' = Some ''''"
  shows "paginate_loop srv c endpoint act key log entries cursor page
         = Some (log @ [page_request c endpoint act cursor],
                 page_outcome key entries (srv (length log)))
         \<and> paginate_loop (srv(length log := without_cursor (srv (length log))))
             c endpoint act key log entries cursor page
           = paginate_loop srv c endpoint act key log entries cursor page
         \<and> strs (json (without_cursor (srv (length log)))) ''cursor'' = None"
proof -
  let ?srv' = "srv(length log := without_cursor (srv (length log)))"
  have st: "stops key (srv (length log))"
    using assms by (simp add: stops_def truthy_def)
  have st': "stops key (?srv' (length log))"
    by (simp add: stops_def truthy_def without_cursor_def)
  have a: "paginate_loop srv c endpoint act key log entries cursor page
         = Some (log @ [page_request c endpoint act cursor],
                 page_outcome key entries (srv (length log)))"
    using st by (rule paginate_loop_stop)
  have "paginate_loop ?srv' c endpoint act key log entries cursor page
         = Some (log @ [page_request c endpoint act cursor],
                 page_outcome key entries (?srv' (length log)))"
    using st' by (rule paginate_loop_stop)
  moreover have "page_outcome key entries (?srv' (length log))
                 = page_outcome key entries (srv (length log))"
    by (simp add: page_outcome_def without_cursor_def raise_for_status_def page_items_def)
  ultimately have b: "paginate_loop ?srv' c endpoint act key log entries cursor page
           = paginate_loop srv c endpoint act key log entries cursor page"
    using a by simp
  have "strs (json (without_cursor (srv (length log)))) ''cursor'' = None"
    by (simp add: without_cursor_def)
  with a b show ?thesis by blast
qed

theorem empty_cursor_stops_like_absent_witness:
  "strs (json (empty_cursor_service (length ([] :: request list)))) ''cursor'' = Some ''''
   \<and> paginate_loop empty_cursor_service anonymous ''app.bsky.graph.getFollowers'' ''me''
       ''followers'' [] [] None 0
     = Some ([page_request anonymous ''app.bsky.graph.getFollowers'' ''me'' None],
             Inr [entry ''a''])
   \<and> paginate_loop (empty_cursor_service(0 := without_cursor (empty_cursor_service 0)))
       anonymous ''app.bsky.graph.getFollowers'' ''me'' ''followers'' [] [] None 0
     = Some ([page_request anonymous ''app.bsky.graph.getFollowers'' ''me'' None],
             Inr [entry ''a''])"
proof -
  have h: "strs (json (empty_cursor_service (length ([] :: request list)))) ''cursor''
           = Some ''''"
    by (simp add: empty_cursor_service_def ok_def)
  have o: "page_outcome ''followers'' [] (empty_cursor_service 0) = Inr [entry ''a'']"
    by (simp add: page_outcome_def empty_cursor_service_def ok_def raise_for_status_def
          page_items_def person_entry)
  from empty_cursor_stops_like_absent [where srv = empty_cursor_service and log = "[]"
         and c = anonymous and endpoint = "''app.bsky.graph.getFollowers''"
         and act = "''me''" and cursor = None and key = "''followers''"
         and entries = "[]" and page = 0, OF h]
  show ?thesis using h o by simp
qed

text \<open>
  C10. An item gives an entry exactly when it has an identifier and a handle: the
  identifier is looked up first, a missing one of the two raises \<open>KeyError\<close>, and a
  missing display name, description or indexing time is the empty string. So the items of
  a page fail exactly when one of them lacks a required key, and then the paginator ends
  with that error. The profile lookup fails on a missing identifier or handle in the same
  way, and its missing optional strings are empty and its missing counters 0.
\<close>

theorem required_and_optional_fields:
  "mk_entry it =
     (if it ''did'' = None then Inl (KeyError ''did'')
      else if it ''handle'' = None then Inl (KeyError ''handle'')
      else Inr \<lparr>did = the (it ''did''), handle = the (it ''handle''),
                display_name = (case it ''displayName'' of None \<Rightarrow> '''' | Some v \<Rightarrow> v),
                description = (case it ''description'' of None \<Rightarrow> '''' | Some v \<Rightarrow> v),
                indexed_at = (case it ''indexedAt'' of None \<Rightarrow> '''' | Some v \<Rightarrow> v)\<rparr>)
   \<and> (isl (mk_entries its)
        \<longleftrightarrow> (\<exists>it \<in> set its. it ''did'' = None \<or> it ''handle'' = None))
   \<and> (raise_for_status (srv (length log)) = None
        \<and> (\<exists>it \<in> set (page_items key (srv (length log))).
               it ''did'' = None \<or> it ''handle'' = None) \<longrightarrow>
        paginate_loop srv c endpoint act key log entries cursor page
          = Some (log @ [page_request c endpoint act cursor], Inl (KeyError ''did''))
        \<or> paginate_loop srv c endpoint act key log entries cursor page
          = Some (log @ [page_request c endpoint act cursor], Inl (KeyError ''handle'')))
   \<and> (raise_for_status (srv (length log)) = None \<longrightarrow>
        snd (get_profile srv log c act) =
          (let d = json (srv (length log)) in
           if strs d ''did'' = None then Inl (KeyError ''did'')
           else if strs d ''handle'' = None then Inl (KeyError ''handle'')
           else Inr \<lparr>p_did = the (strs d ''did''), p_handle = the (strs d ''handle''),
                     p_display_name =
                       (case strs d ''displayName'' of None \<Rightarrow> '''' | Some v \<Rightarrow> v),
                     p_description =
                       (case strs d ''description'' of None \<Rightarrow> '''' | Some v \<Rightarrow> v),
                     followers_count =
                       (case ints d ''followersCount'' of None \<Rightarrow> 0 | Some n \<Rightarrow> n),
                     follows_count =
                       (case ints d ''followsCount'' of None \<Rightarrow> 0 | Some n \<Rightarrow> n),
                     posts_count =
                       (case ints d ''postsCount'' of None \<Rightarrow> 0 | Some n \<Rightarrow> n)\<rparr>))"
proof (intro conjI impI)
  show "mk_entry it =
     (if it ''did'' = None then Inl (KeyError ''did'')
      else if it ''handle'' = None then Inl (KeyError ''handle'')
      else Inr \<lparr>did = the (it ''did''), handle = the (it ''handle''),
                display_name = (case it ''displayName'' of None \<Rightarrow> '''' | Some v \<Rightarrow> v),
                description = (case it ''description'' of None \<Rightarrow> '''' | Some v \<Rightarrow> v),
                indexed_at = (case it ''indexedAt'' of None \<Rightarrow> '''' | Some v \<Rightarrow> v)\<rparr>)"
    by (simp add: mk_entry_cases entry_of_def)
  show "isl (mk_entries its)
        \<longleftrightarrow> (\<exists>it \<in> set its. it ''did'' = None \<or> it ''handle'' = None)"
    by (rule mk_entries_isl)
next
  assume h: "raise_for_status (srv (length log)) = None
        \<and> (\<exists>it \<in> set (page_items key (srv (length log))).
               it ''did'' = None \<or> it ''handle'' = None)"
  then have bad: "isl (mk_entries (page_items key (srv (length log))))"
    by (simp add: mk_entries_isl)
  then obtain e where e: "mk_entries (page_items key (srv (length log))) = Inl e"
    by (cases "mk_entries (page_items key (srv (length log)))") auto
  from bad have st: "stops key (srv (length log))" by (simp add: stops_def)
  have run: "paginate_loop srv c endpoint act key log entries cursor page
         = Some (log @ [page_request c endpoint act cursor],
                 page_outcome key entries (srv (length log)))"
    using st by (rule paginate_loop_stop)
  have "page_outcome key entries (srv (length log)) = Inl e"
    using h e by (simp add: page_outcome_def)
  with run mk_entries_KeyError [OF e]
  show "paginate_loop srv c endpoint act key log entries cursor page
          = Some (log @ [page_request c endpoint act cursor], Inl (KeyError ''did''))
        \<or> paginate_loop srv c endpoint act key log entries cursor page
          = Some (log @ [page_request c endpoint act cursor], Inl (KeyError ''handle''))"
    by auto
next
  assume "raise_for_status (srv (length log)) = None"
  then show "snd (get_profile srv log c act) =
          (let d = json (srv (length log)) in
           if strs d ''did'' = None then Inl (KeyError ''did'')
           else if strs d ''handle'' = None then Inl (KeyError ''handle'')
           else Inr \<lparr>p_did = the (strs d ''did''), p_handle = the (strs d ''handle''),
                     p_display_name =
                       (case strs d ''displayName'' of None \<Rightarrow> '''' | Some v \<Rightarrow> v),
                     p_description =
                       (case strs d ''description'' of None \<Rightarrow> '''' | Some v \<Rightarrow> v),
                     followers_count =
                       (case ints d ''followersCount'' of None \<Rightarrow> 0 | Some n \<Rightarrow> n),
                     follows_count =
                       (case ints d ''followsCount'' of None \<Rightarrow> 0 | Some n \<Rightarrow> n),
                     posts_count =
                       (case ints d ''postsCount'' of None \<Rightarrow> 0 | Some n \<Rightarrow> n)\<rparr>)"
    by (simp add: get_profile_cases profile_of_def Let_def)
qed

theorem required_and_optional_fields_witness:
  "mk_entry (person ''a'') = Inr (entry ''a'')
   \<and> display_name (entry ''a'') = '''' \<and> description (entry ''a'') = ''''
   \<and> indexed_at (entry ''a'') = ''''
   \<and> mk_entry [''handle'' \<mapsto> ''x.bsky.social''] = Inl (KeyError ''did'')
   \<and> mk_entry [''did'' \<mapsto> ''x''] = Inl (KeyError ''handle'')
   \<and> isl (mk_entries [person ''a'', [''handle'' \<mapsto> ''x.bsky.social'']])
   \<and> raise_for_status (broken_service (length ([] :: request list))) = None
   \<and> paginate_loop broken_service anonymous ''app.bsky.graph.getFollowers'' ''me''
       ''followers'' [] [] None 0
     = Some ([page_request anonymous ''app.bsky.graph.getFollowers'' ''me'' None],
             Inl (KeyError ''did''))
   \<and> raise_for_status (demo_service (length ([] :: request list))) = None
   \<and> snd (get_profile demo_service [] anonymous ''me'') = Inr demo_profile
   \<and> p_display_name demo_profile = '''' \<and> p_description demo_profile = ''''
   \<and> followers_count demo_profile = 0 \<and> follows_count demo_profile = 0
   \<and> posts_count demo_profile = 0"
proof -
  note t = required_and_optional_fields
  have e1: "mk_entry (person ''a'') = Inr (entry ''a'')"
    using t [where it = "person ''a''"] by (simp add: person_def entry_def)
  have e2: "mk_entry [''handle'' \<mapsto> ''x.bsky.social''] = Inl (KeyError ''did'')"
    using t [where it = "[''handle'' \<mapsto> ''x.bsky.social'']"] by simp
  have e3: "mk_entry [''did'' \<mapsto> ''x''] = Inl (KeyError ''handle'')"
    using t [where it = "[''did'' \<mapsto> ''x'']"] by simp
  have e4: "isl (mk_entries [person ''a'', [''handle'' \<mapsto> ''x.bsky.social'']])"
    using t [where its = "[person ''a'', [''handle'' \<mapsto> ''x.bsky.social'']]"] by simp
  have d: "display_name (entry ''a'') = '''' \<and> description (entry ''a'') = ''''
           \<and> indexed_at (entry ''a'') = ''''"
    by (simp add: entry_def)
  have r1: "raise_for_status (broken_service (length ([] :: request list))) = None"
    by (simp add: broken_service_def ok_def raise_for_status_def)
  have b: "\<exists>it \<in> set (page_items ''followers'' (broken_service (length ([] :: request list)))).
             it ''did'' = None \<or> it ''handle'' = None"
    by (simp add: page_items_def broken_service_def ok_def)
  have nh: "paginate_loop broken_service anonymous ''app.bsky.graph.getFollowers'' ''me''
              ''followers'' [] [] None 0
            \<noteq> Some ([page_request anonymous ''app.bsky.graph.getFollowers'' ''me'' None],
                    Inl (KeyError ''handle''))"
  proof -
    have st: "stops ''followers'' (broken_service (length ([] :: request list)))"
      using b r1 by (simp add: stops_def mk_entries_isl)
    show ?thesis
      by (simp add: paginate_loop_stop [where srv = broken_service and log = "[]", OF st])
         (simp add: page_outcome_def broken_service_def ok_def raise_for_status_def
            page_items_def person_def mk_entry_cases)
  qed
  from t [where srv = broken_service and log = "[]" and key = "''followers''"
            and c = anonymous and endpoint = "''app.bsky.graph.getFollowers''"
            and act = "''me''" and entries = "[]" and cursor = None and page = 0] r1 b
  have "paginate_loop broken_service anonymous ''app.bsky.graph.getFollowers'' ''me''
          ''followers'' [] [] None 0
        = Some ([page_request anonymous ''app.bsky.graph.getFollowers'' ''me'' None],
                Inl (KeyError ''did''))
        \<or> paginate_loop broken_service anonymous ''app.bsky.graph.getFollowers'' ''me''
          ''followers'' [] [] None 0
        = Some ([page_request anonymous ''app.bsky.graph.getFollowers'' ''me'' None],
                Inl (KeyError ''handle''))"
    by simp
  with nh have e5: "paginate_loop broken_service anonymous ''app.bsky.graph.getFollowers''
          ''me'' ''followers'' [] [] None 0
        = Some ([page_request anonymous ''app.bsky.graph.getFollowers'' ''me'' None],
                Inl (KeyError ''did''))"
    by blast
  have r2: "raise_for_status (demo_service (length ([] :: request list))) = None"
    by (simp add: demo_service_def ok_def raise_for_status_def)
  from t [where srv = demo_service and log = "[]" and c = anonymous and act = "''me''"] r2
  have e6: "snd (get_profile demo_service [] anonymous ''me'') = Inr demo_profile"
    by (simp add: demo_service_def ok_def demo_profile_def)
  have p: "p_display_name demo_profile = '''' \<and> p_description demo_profile = ''''
           \<and> followers_count demo_profile = 0 \<and> follows_count demo_profile = 0
           \<and> posts_count demo_profile = 0"
    by (simp add: demo_profile_def)
  from e1 d e2 e3 e4 r1 e5 r2 e6 p show ?thesis by blast
qed

end
